theory Spec2Isabelle
  imports Main "HOL-Library.AList" "HOL-Library.Char_ord" "HOL-Library.List_Lexorder"
begin

section \<open>Strings and paths\<close>

text \<open>
  Go strings are byte sequences; they are modelled as \<open>string\<close> (a list of 8-bit
  characters). The helpers below follow the Go standard library functions the program
  calls: \<open>strings.HasSuffix\<close>, \<open>strings.Split\<close> with a one-byte separator,
  \<open>strings.SplitN(s, " ", 2)\<close>, \<open>strings.TrimSpace\<close> and \<open>filepath.Ext\<close>.
\<close>

definition HasSuffix :: "string \<Rightarrow> string \<Rightarrow> bool" where
  "HasSuffix s suf = (length suf \<le> length s \<and> drop (length s - length suf) s = suf)"

text \<open>\<open>strings.Split(s, sep)\<close> for a separator of one byte: the pieces between the
  separators, so that a string with \<open>n\<close> separators gives \<open>n + 1\<close> pieces.\<close>

fun Split :: "string \<Rightarrow> char \<Rightarrow> string list" where
  "Split [] sep = [[]]"
| "Split (c # cs) sep =
     (if c = sep then [] # Split cs sep
      else (case Split cs sep of [] \<Rightarrow> [[c]] | p # ps \<Rightarrow> (c # p) # ps))"

text \<open>\<open>strings.SplitN(s, " ", 2)\<close>: one piece when \<open>s\<close> has no space, otherwise the
  text before the first space and everything after it.\<close>

fun SplitN2 :: "string \<Rightarrow> string list" where
  "SplitN2 s =
     (if CHR '' '' \<in> set s
      then [takeWhile (\<lambda>c. c \<noteq> CHR '' '') s, tl (dropWhile (\<lambda>c. c \<noteq> CHR '' '') s)]
      else [s])"

text \<open>The white space of \<open>strings.TrimSpace\<close> on ASCII input: tab, line feed, vertical
  tab, form feed, carriage return and space. (Go also strips the non-ASCII Unicode
  white space U+0085, U+00A0, ...; the model is exact on text whose first and last
  non-blank bytes are ASCII.)\<close>

definition isSpace :: "char \<Rightarrow> bool" where
  "isSpace c = (c = CHR 0x09 \<or> c = CHR 0x0A \<or> c = CHR 0x0B \<or> c = CHR 0x0C
                \<or> c = CHR 0x0D \<or> c = CHR '' '')"

definition TrimSpace :: "string \<Rightarrow> string" where
  "TrimSpace s = rev (dropWhile isSpace (rev (dropWhile isSpace s)))"

text \<open>\<open>filepath.Ext\<close> scans the path backwards up to the last path separator and returns
  the suffix that starts at the first dot it meets; the scan is written on the
  reversed path.\<close>

fun ext_scan :: "string \<Rightarrow> string \<Rightarrow> string" where
  "ext_scan [] acc = []"
| "ext_scan (c # cs) acc =
     (if c = CHR ''/'' then []
      else if c = CHR ''.'' then c # acc
      else ext_scan cs (c # acc))"

definition Ext :: "string \<Rightarrow> string" where
  "Ext p = ext_scan (rev p) []"

text \<open>Paths are \<open>/\<close>-separated strings. \<open>components\<close> gives the elements of a path the
  way \<open>filepath.Clean\<close> leaves them for paths without \<open>..\<close> (empty elements and
  \<open>.\<close> disappear); \<open>Join\<close> is \<open>filepath.Join\<close> on such paths.\<close>

definition components :: "string \<Rightarrow> string list" where
  "components p = filter (\<lambda>c. c \<noteq> [] \<and> c \<noteq> ''.'') (Split p (CHR ''/''))"

fun intercalate :: "string \<Rightarrow> string list \<Rightarrow> string" where
  "intercalate sep [] = []"
| "intercalate sep [x] = x"
| "intercalate sep (x # y # ys) = x @ sep @ intercalate sep (y # ys)"

definition Join :: "string \<Rightarrow> string \<Rightarrow> string" where
  "Join a b =
     (if a = [] \<and> b = [] then []
      else (if a \<noteq> [] \<and> hd a = CHR ''/'' then ''/'' else []) @
           (case components (a @ ''/'' @ b) of
              [] \<Rightarrow> (if a \<noteq> [] \<and> hd a = CHR ''/'' then [] else ''.'')
            | cs \<Rightarrow> intercalate ''/'' cs))"

definition Base :: "string \<Rightarrow> string" where
  "Base p = (case components p of [] \<Rightarrow> (if p \<noteq> [] \<and> hd p = CHR ''/'' then ''/'' else ''.'')
             | cs \<Rightarrow> last cs)"

section \<open>The file system\<close>

text \<open>
  A directory tree: a file with its permission bits and its bytes, or a directory with
  its entries, in the order in which the loops over \<open>os.ReadDir\<close> visit them.
  \<open>Stat\<close> finds the node at a path; a relative path starts at the root of the tree,
  and the empty path names nothing (\<open>os.Stat("")\<close> fails with \<open>ENOENT\<close>). Every
  file of the tree can be read; the I/O errors of the model are an absent path and a
  file where a directory is needed (or the reverse).
\<close>

datatype node = File nat string | Dir "(string \<times> node) list"

fun lookup_node :: "node \<Rightarrow> string list \<Rightarrow> node option" where
  "lookup_node n [] = Some n"
| "lookup_node (File _ _) (_ # _) = None"
| "lookup_node (Dir es) (c # cs) =
     (case map_of es c of None \<Rightarrow> None | Some n \<Rightarrow> lookup_node n cs)"

definition Stat :: "node \<Rightarrow> string \<Rightarrow> node option" where
  "Stat fs p = (if p = [] then None else lookup_node fs (components p))"

fun IsDir :: "node \<Rightarrow> bool" where
  "IsDir (Dir _) = True"
| "IsDir (File _ _) = False"

section \<open>Errors\<close>

datatype error =
    ErrVersionIncomplete
  | ErrVersionInvalidImageConfig
  | ErrProductInvalidPath
  | ErrNotExist
  | ErrIO
  | ErrInvalidArg
  | Panic

section \<open>The data model\<close>

definition FileChecksumSHA256 :: string where "FileChecksumSHA256 = ''SHA256SUMS''"
definition FileImageConfig :: string where "FileImageConfig = ''image.yaml''"

definition ItemTypeMetadata :: string where "ItemTypeMetadata = ''lxd.tar.xz''"
definition ItemTypeSquashfs :: string where "ItemTypeSquashfs = ''squashfs''"
definition ItemTypeSquashfsDelta :: string where "ItemTypeSquashfsDelta = ''squashfs.vcdiff''"
definition ItemTypeDiskKVM :: string where "ItemTypeDiskKVM = ''disk-kvm.img''"
definition ItemTypeDiskKVMDelta :: string where "ItemTypeDiskKVMDelta = ''disk-kvm.img.vcdiff''"
definition ItemTypeRootTarXz :: string where "ItemTypeRootTarXz = ''root.tar.xz''"

definition ItemExtMetadata :: string where "ItemExtMetadata = ''.tar.xz''"
definition ItemExtSquashfs :: string where "ItemExtSquashfs = ''.squashfs''"
definition ItemExtSquashfsDelta :: string where "ItemExtSquashfsDelta = ''.vcdiff''"
definition ItemExtDiskKVM :: string where "ItemExtDiskKVM = ''.qcow2''"
definition ItemExtDiskKVMDelta :: string where "ItemExtDiskKVMDelta = ''.qcow2.vcdiff''"

definition allowedItemExtensions :: "string list" where
  "allowedItemExtensions =
     [ItemExtMetadata, ItemExtSquashfs, ItemExtSquashfsDelta, ItemExtDiskKVM, ItemExtDiskKVMDelta]"

text \<open>Go maps that the program iterates over are association lists: \<open>map_of\<close> looks
  a key up, \<open>AList.update\<close> stores a value, and a \<open>range\<close> loop visits the
  entries in the order of the list. Go leaves that order open; nothing below
  assumes one. A map that may be \<open>nil\<close> is an option.\<close>

record ImageConfig =
  cfg_ReleaseAliases :: "(string \<times> string) list"
  cfg_Requirements :: "(string \<times> string) list option"

record Item =
  Name :: string
  Ftype :: string
  Path :: string
  Size :: int
  SHA256 :: string
  CombinedSHA256DiskKvmImg :: string
  CombinedSHA256SquashFs :: string
  CombinedSHA256RootXz :: string
  DeltaBase :: string

record Version =
  Checksums :: "(string \<times> string) list option"
  ImageConfig :: "ImageConfig option"
  Items :: "(string \<times> Item) list"

record Product =
  Aliases :: string
  Architecture :: string
  Distro :: string
  Release :: string
  ReleaseTitle :: string
  Variant :: string
  Versions :: "(string \<times> Version) list"
  Requirements :: "(string \<times> string) list"

record ProductCatalog =
  ContentID :: string
  Format :: string
  DataType :: string
  Products :: "(string \<times> Product) list"

definition zero_Item :: Item where
  "zero_Item = \<lparr>Name = [], Ftype = [], Path = [], Size = 0, SHA256 = [],
     CombinedSHA256DiskKvmImg = [], CombinedSHA256SquashFs = [], CombinedSHA256RootXz = [],
     DeltaBase = []\<rparr>"

definition zero_Product :: Product where
  "zero_Product = \<lparr>Aliases = [], Architecture = [], Distro = [], Release = [],
     ReleaseTitle = [], Variant = [], Versions = [], Requirements = []\<rparr>"

definition ID :: "Product \<Rightarrow> string" where
  "ID p = Distro p @ '':'' @ Release p @ '':'' @ Architecture p @ '':'' @ Variant p"

definition RelPath :: "Product \<Rightarrow> string" where
  "RelPath p = Join (Join (Join (Distro p) (Release p)) (Architecture p)) (Variant p)"

definition NewCatalog :: "(string \<times> Product) list \<Rightarrow> ProductCatalog" where
  "NewCatalog products =
     \<lparr>ContentID = ''images'', Format = ''products:1.0'', DataType = ''image-downloads'',
      Products = products\<rparr>"

text \<open>Modelled from the spec: the stream index (\<open>stream.StreamIndex\<close>,
  \<open>NewStreamIndex\<close> and \<open>AddEntry\<close> are not among the sources). The index has a
  format and one entry per stream name, with the path of the stream's catalog, the
  catalog's format and data type, the time of the update and the product ids of the
  catalog.\<close>

record StreamIndexEntry =
  ie_Path :: string
  ie_Format :: string
  ie_Datatype :: string
  ie_Updated :: string
  ie_Products :: "string list"

record StreamIndex =
  ix_Format :: string
  ix_Index :: "(string \<times> StreamIndexEntry) list"

definition NewStreamIndex :: StreamIndex where
  "NewStreamIndex = \<lparr>ix_Format = ''index:1.0'', ix_Index = []\<rparr>"

section \<open>The environment\<close>

text \<open>
  The helpers of the \<open>shared\<close> package, the clock and the external delta tool are
  not part of the sources at hand. What the model needs of them is a parameter:
  \<open>sha256\<close> is the hex digest of a byte string; \<open>readYAML\<close> parses the bytes of
  \<open>image.yaml\<close> (\<open>None\<close> when they do not parse, otherwise the optional
  \<open>simplestreams\<close> subtree); \<open>readCatalog\<close> parses the bytes of a catalog
  (\<open>None\<close> when they do not parse); \<open>writeCatalog\<close> and \<open>writeIndex\<close> are the
  JSON texts of a catalog and of an index; \<open>lookPath\<close> says whether
  \<open>exec.LookPath\<close> finds the delta tool, and \<open>xdelta3\<close> is the delta the tool
  computes of a source and a target (\<open>None\<close> when the command fails); \<open>dirSize\<close>
  is the size the file system reports for the directory at a path; \<open>createMode\<close> are
  the permission bits of a file the program creates; \<open>now\<close> is the time of the run.
\<close>

record env =
  sha256 :: "string \<Rightarrow> string"
  readYAML :: "string \<Rightarrow> ImageConfig option option"
  readCatalog :: "string \<Rightarrow> ProductCatalog option"
  writeCatalog :: "ProductCatalog \<Rightarrow> string"
  writeIndex :: "StreamIndex \<Rightarrow> string"
  lookPath :: bool
  xdelta3 :: "string \<Rightarrow> string \<Rightarrow> string option"
  dirSize :: "string \<Rightarrow> int"
  createMode :: nat
  now :: string

text \<open>The size \<open>os.Stat\<close> reports for the node at a path: the number of bytes of a
  file, and for a directory what the file system says.\<close>

fun node_size :: "env \<Rightarrow> string \<Rightarrow> node \<Rightarrow> int" where
  "node_size E p (File _ bytes) = int (length bytes)"
| "node_size E p (Dir _) = dirSize E p"

definition AddEntry :: "env \<Rightarrow> StreamIndex \<Rightarrow> string \<Rightarrow> string \<Rightarrow> ProductCatalog \<Rightarrow> StreamIndex" where
  "AddEntry E index streamName path catalog =
     index\<lparr>ix_Index := AList.update streamName
       \<lparr>ie_Path = path, ie_Format = Format catalog, ie_Datatype = DataType catalog,
        ie_Updated = now E, ie_Products = map fst (Products catalog)\<rparr> (ix_Index index)\<rparr>"

section \<open>Reading and writing the file system\<close>

definition ReadDir :: "node \<Rightarrow> string \<Rightarrow> error + (string \<times> node) list" where
  "ReadDir fs p =
     (case Stat fs p of
        None \<Rightarrow> Inl ErrNotExist
      | Some (File _ _) \<Rightarrow> Inl ErrIO
      | Some (Dir es) \<Rightarrow> Inr es)"

fun read_files :: "node \<Rightarrow> string list \<Rightarrow> error + string" where
  "read_files fs [] = Inr []"
| "read_files fs (p # ps) =
     (case Stat fs p of
        None \<Rightarrow> Inl ErrNotExist
      | Some (Dir _) \<Rightarrow> Inl ErrIO
      | Some (File _ b) \<Rightarrow>
          (case read_files fs ps of Inl e \<Rightarrow> Inl e | Inr bs \<Rightarrow> Inr (b @ bs)))"

text \<open>Modelled from the spec: \<open>shared.FileHash\<close> (not among the sources), the SHA-256
  of the concatenation of the listed files in order, failing on an I/O error.\<close>

definition FileHash :: "env \<Rightarrow> node \<Rightarrow> string list \<Rightarrow> error + string" where
  "FileHash E fs paths =
     (case read_files fs paths of Inl e \<Rightarrow> Inl e | Inr bs \<Rightarrow> Inr (sha256 E bs))"

text \<open>Storing a node at a path whose parent directory exists, and taking the node at a
  path out of the tree. \<open>None\<close> is the failure of the system call.\<close>

fun put_node :: "node \<Rightarrow> string list \<Rightarrow> node \<Rightarrow> node option" where
  "put_node n [] new = Some new"
| "put_node (File _ _) (c # cs) new = None"
| "put_node (Dir es) [c] new = Some (Dir (AList.update c new es))"
| "put_node (Dir es) (c # d # cs) new =
     (case map_of es c of
        None \<Rightarrow> None
      | Some child \<Rightarrow>
          (case put_node child (d # cs) new of
             None \<Rightarrow> None
           | Some child' \<Rightarrow> Some (Dir (AList.update c child' es))))"

fun delete_node :: "node \<Rightarrow> string list \<Rightarrow> node option" where
  "delete_node n [] = None"
| "delete_node (File _ _) (c # cs) = None"
| "delete_node (Dir es) [c] =
     (case map_of es c of None \<Rightarrow> None | Some _ \<Rightarrow> Some (Dir (AList.delete c es)))"
| "delete_node (Dir es) (c # d # cs) =
     (case map_of es c of
        None \<Rightarrow> None
      | Some child \<Rightarrow>
          (case delete_node child (d # cs) of
             None \<Rightarrow> None
           | Some child' \<Rightarrow> Some (Dir (AList.update c child' es))))"

text \<open>\<open>os.Remove\<close> removes a file or an empty directory.\<close>

definition Remove :: "node \<Rightarrow> string \<Rightarrow> error + node" where
  "Remove fs p =
     (case Stat fs p of
        None \<Rightarrow> Inl ErrNotExist
      | Some (Dir (e # es)) \<Rightarrow> Inl ErrIO
      | Some _ \<Rightarrow> (case delete_node fs (components p) of None \<Rightarrow> Inl ErrIO | Some fs' \<Rightarrow> Inr fs'))"

text \<open>\<open>os.Rename\<close> moves the node at the old path to the new path, replacing a file
  by a file and an empty directory by a directory. Like every system call, it fails
  on an empty path.\<close>

definition Rename :: "node \<Rightarrow> string \<Rightarrow> string \<Rightarrow> error + node" where
  "Rename fs oldp newp =
     (case Stat fs oldp of
        None \<Rightarrow> Inl ErrNotExist
      | Some n \<Rightarrow>
          if newp = [] then Inl ErrNotExist
          else if components oldp = components newp then Inr fs
          else if (case Stat fs newp of
                     None \<Rightarrow> False
                   | Some (File _ _) \<Rightarrow> IsDir n
                   | Some (Dir es) \<Rightarrow> \<not> IsDir n \<or> es \<noteq> []) then Inl ErrIO
          else (case delete_node fs (components oldp) of
                  None \<Rightarrow> Inl ErrIO
                | Some fs1 \<Rightarrow>
                    (case put_node fs1 (components newp) n of
                       None \<Rightarrow> Inl ErrIO
                     | Some fs2 \<Rightarrow> Inr fs2)))"

text \<open>\<open>os.Chmod\<close> sets the permission bits of a file (the bits of directories are not
  part of the model).\<close>

definition Chmod :: "node \<Rightarrow> string \<Rightarrow> nat \<Rightarrow> error + node" where
  "Chmod fs p mode =
     (case Stat fs p of
        None \<Rightarrow> Inl ErrNotExist
      | Some (Dir es) \<Rightarrow> Inr fs
      | Some (File _ b) \<Rightarrow>
          (case put_node fs (components p) (File mode b) of
             None \<Rightarrow> Inl ErrIO
           | Some fs' \<Rightarrow> Inr fs'))"

text \<open>Modelled from the spec: the file-system effect of \<open>shared.WriteJSONFile\<close> (not
  among the sources) and of the delta tool. Writing a file creates it with the
  creation mode or keeps the mode of the file it truncates.\<close>

definition WriteFile :: "env \<Rightarrow> node \<Rightarrow> string \<Rightarrow> string \<Rightarrow> error + node" where
  "WriteFile E fs p bytes =
     (case Stat fs p of
        Some (Dir _) \<Rightarrow> Inl ErrIO
      | Some (File m _) \<Rightarrow>
          (case put_node fs (components p) (File m bytes) of
             None \<Rightarrow> Inl ErrIO | Some fs' \<Rightarrow> Inr fs')
      | None \<Rightarrow>
          if p = [] then Inl ErrNotExist
          else
            (case put_node fs (components p) (File (createMode E) bytes) of
               None \<Rightarrow> Inl ErrNotExist | Some fs' \<Rightarrow> Inr fs'))"

text \<open>Modelled from the spec: \<open>shared.AppendToFile\<close> (not among the sources), which
  opens the file for appending and writes the text in one write.\<close>

definition AppendToFile :: "env \<Rightarrow> node \<Rightarrow> string \<Rightarrow> string \<Rightarrow> error + node" where
  "AppendToFile E fs p text =
     (case Stat fs p of
        Some (Dir _) \<Rightarrow> Inl ErrIO
      | Some (File m b) \<Rightarrow>
          (case put_node fs (components p) (File m (b @ text)) of
             None \<Rightarrow> Inl ErrIO | Some fs' \<Rightarrow> Inr fs')
      | None \<Rightarrow>
          if p = [] then Inl ErrNotExist
          else
            (case put_node fs (components p) (File (createMode E) text) of
               None \<Rightarrow> Inl ErrNotExist | Some fs' \<Rightarrow> Inr fs'))"

text \<open>\<open>os.MkdirAll\<close> creates the missing directories of a path.\<close>

fun mkdir_all :: "node \<Rightarrow> string list \<Rightarrow> node option" where
  "mkdir_all (File m b) cs = None"
| "mkdir_all (Dir es) [] = Some (Dir es)"
| "mkdir_all (Dir es) (c # cs) =
     (case mkdir_all (case map_of es c of None \<Rightarrow> Dir [] | Some child \<Rightarrow> child) cs of
        None \<Rightarrow> None
      | Some child' \<Rightarrow> Some (Dir (AList.update c child' es)))"

definition MkdirAll :: "node \<Rightarrow> string \<Rightarrow> error + node" where
  "MkdirAll fs p =
     (if p = [] then Inl ErrNotExist
      else (case mkdir_all fs (components p) of None \<Rightarrow> Inl ErrIO | Some fs' \<Rightarrow> Inr fs'))"

section \<open>Items\<close>

text \<open>\<open>parts[len(parts) - k]\<close>: Go panics when the index is out of range.\<close>

definition from_end :: "string list \<Rightarrow> nat \<Rightarrow> error + string" where
  "from_end parts k =
     (if k \<le> length parts \<and> 0 < k then Inr (parts ! (length parts - k)) else Inl Panic)"

text \<open>The \<open>switch\<close> of \<open>GetItem\<close> on the extension of the item's path.\<close>

definition classify :: "string \<Rightarrow> Item \<Rightarrow> error + Item" where
  "classify itemPath item =
     (let ext = Ext itemPath in
      if ext = ItemExtSquashfs then Inr (item\<lparr>Ftype := ItemTypeSquashfs\<rparr>)
      else if ext = ItemExtDiskKVM then Inr (item\<lparr>Ftype := ItemTypeDiskKVM\<rparr>)
      else if ext = ''.vcdiff'' then
        (let parts = Split (Name item) (CHR ''.'') in
         if HasSuffix (Name item) ItemExtDiskKVMDelta
         then (case from_end parts 3 of
                 Inl e \<Rightarrow> Inl e
               | Inr b \<Rightarrow> Inr (item\<lparr>Ftype := ItemTypeDiskKVMDelta, DeltaBase := b\<rparr>))
         else (case from_end parts 2 of
                 Inl e \<Rightarrow> Inl e
               | Inr b \<Rightarrow> Inr (item\<lparr>Ftype := ItemTypeSquashfsDelta, DeltaBase := b\<rparr>)))
      else Inr (item\<lparr>Ftype := Name item\<rparr>))"

definition GetItem :: "env \<Rightarrow> node \<Rightarrow> string \<Rightarrow> string \<Rightarrow> bool \<Rightarrow> error + Item" where
  "GetItem E fs rootDir itemRelPath calcHash =
     (let itemPath = Join rootDir itemRelPath in
      case Stat fs itemPath of
        None \<Rightarrow> Inl ErrNotExist
      | Some file \<Rightarrow>
          (let item = zero_Item\<lparr>Name := Base itemPath, Size := node_size E itemPath file,
                                 Path := itemRelPath\<rparr> in
           if calcHash
           then (case FileHash E fs [itemPath] of
                   Inl e \<Rightarrow> Inl e
                 | Inr hash \<Rightarrow> classify itemPath (item\<lparr>SHA256 := hash\<rparr>))
           else classify itemPath item))"

section \<open>The checksum file\<close>

text \<open>The lines a \<open>bufio.Scanner\<close> yields: the pieces between line feeds, without a
  carriage return at their end, and without an empty piece after the last line feed.
  (The scanner's limit of 64 KiB for one line is not part of the model.)\<close>

definition dropCR :: "string \<Rightarrow> string" where
  "dropCR l = (if l \<noteq> [] \<and> last l = CHR 0x0D then butlast l else l)"

definition scan_lines :: "string \<Rightarrow> string list" where
  "scan_lines bytes =
     (let ps = Split bytes (CHR 0x0A)
      in map dropCR (if last ps = [] then butlast ps else ps))"

text \<open>The body of the loop of \<open>ReadChecksumFile\<close>: the entry (file name, checksum) a
  line adds to the map, if any.\<close>

definition checksum_line :: "string \<Rightarrow> (string \<times> string) option" where
  "checksum_line text =
     (let line = TrimSpace text;
          parts = SplitN2 line
      in if length parts \<noteq> 2 then None
         else Some (TrimSpace (parts ! 1), parts ! 0))"

fun checksum_lines :: "string list \<Rightarrow> (string \<times> string) list \<Rightarrow> (string \<times> string) list" where
  "checksum_lines [] checksums = checksums"
| "checksum_lines (l # ls) checksums =
     (case checksum_line l of
        None \<Rightarrow> checksum_lines ls checksums
      | Some (filename, checksum) \<Rightarrow> checksum_lines ls (AList.update filename checksum checksums))"

text \<open>Opening a directory succeeds and reading it fails; the scanner then yields no
  line, and its error is not looked at.\<close>

definition ReadChecksumFile :: "node \<Rightarrow> string \<Rightarrow> error + (string \<times> string) list" where
  "ReadChecksumFile fs path =
     (case Stat fs path of
        None \<Rightarrow> Inl ErrNotExist
      | Some (Dir _) \<Rightarrow> Inr []
      | Some (File _ bytes) \<Rightarrow> Inr (checksum_lines (scan_lines bytes) []))"

section \<open>Versions\<close>

text \<open>Modelled from the spec: \<open>shared.HasSuffix(name, allowedItemExtensions...)\<close> (not
  among the sources): the name has one of the allowed item extensions.\<close>

definition has_allowed_ext :: "string \<Rightarrow> bool" where
  "has_allowed_ext name = list_ex (HasSuffix name) allowedItemExtensions"

text \<open>Modelled from the spec: \<open>shared.ReadYAMLFile\<close> (not among the sources) on the
  path of \<open>image.yaml\<close>: the optional \<open>simplestreams\<close> subtree, or an error when
  the file cannot be read or parsed.\<close>

definition ReadYAMLFile :: "env \<Rightarrow> node \<Rightarrow> string \<Rightarrow> error + ImageConfig option" where
  "ReadYAMLFile E fs p =
     (case Stat fs p of
        None \<Rightarrow> Inl ErrNotExist
      | Some (Dir _) \<Rightarrow> Inl ErrIO
      | Some (File _ bytes) \<Rightarrow>
          (case readYAML E bytes of None \<Rightarrow> Inl ErrIO | Some config \<Rightarrow> Inr config))"

text \<open>The first loop of \<open>GetVersion\<close>, over the entries of the version directory.\<close>

fun scan_files ::
  "env \<Rightarrow> node \<Rightarrow> string \<Rightarrow> string \<Rightarrow> bool \<Rightarrow> (string \<times> node) list \<Rightarrow> Version \<Rightarrow> error + Version"
where
  "scan_files E fs rootDir versionRelPath calcHashes [] version = Inr version"
| "scan_files E fs rootDir versionRelPath calcHashes ((name, file) # files) version =
     (if IsDir file then scan_files E fs rootDir versionRelPath calcHashes files version
      else if has_allowed_ext name then
        (case GetItem E fs rootDir (Join versionRelPath name) calcHashes of
           Inl e \<Rightarrow> Inl e
         | Inr item \<Rightarrow>
             scan_files E fs rootDir versionRelPath calcHashes files
               (version\<lparr>Items := AList.update name item (Items version)\<rparr>))
      else if name = FileChecksumSHA256 then
        (case ReadChecksumFile fs (Join (Join rootDir versionRelPath) name) of
           Inl e \<Rightarrow> Inl e
         | Inr checksums \<Rightarrow>
             scan_files E fs rootDir versionRelPath calcHashes files
               (version\<lparr>Checksums := Some checksums\<rparr>))
      else if name = FileImageConfig then
        (case ReadYAMLFile E fs (Join (Join rootDir versionRelPath) name) of
           Inl e \<Rightarrow> Inl ErrVersionInvalidImageConfig
         | Inr config \<Rightarrow>
             scan_files E fs rootDir versionRelPath calcHashes files
               (case config of
                  None \<Rightarrow> version
                | Some c \<Rightarrow> version\<lparr>ImageConfig := Some c\<rparr>))
      else scan_files E fs rootDir versionRelPath calcHashes files version)"

text \<open>The second loop of \<open>GetVersion\<close>, over the items: the state is the metadata item
  and the flag \<open>isVersionComplete\<close>.\<close>

fun combine ::
  "env \<Rightarrow> node \<Rightarrow> string \<Rightarrow> string \<Rightarrow> bool \<Rightarrow> (string \<times> Item) list \<Rightarrow> Item \<times> bool
     \<Rightarrow> error + Item \<times> bool"
where
  "combine E fs versionPath metaItemPath calcHashes [] st = Inr st"
| "combine E fs versionPath metaItemPath calcHashes ((k, i) # items) (metaItem, complete) =
     (if Ftype i \<notin> set [ItemTypeSquashfs, ItemTypeDiskKVM, ItemTypeRootTarXz]
      then combine E fs versionPath metaItemPath calcHashes items (metaItem, complete)
      else
        (case (if calcHashes
               then FileHash E fs [metaItemPath, Join versionPath (Name i)]
               else Inr []) of
           Inl e \<Rightarrow> Inl e
         | Inr itemHash \<Rightarrow>
             combine E fs versionPath metaItemPath calcHashes items
               (if Ftype i = ItemTypeDiskKVM
                then (metaItem\<lparr>CombinedSHA256DiskKvmImg := itemHash\<rparr>, True)
                else if Ftype i = ItemTypeSquashfs
                then (metaItem\<lparr>CombinedSHA256SquashFs := itemHash\<rparr>, True)
                else if Ftype i = ItemTypeRootTarXz
                then (metaItem\<lparr>CombinedSHA256RootXz := itemHash\<rparr>, complete)
                else (metaItem, complete))))"

definition GetVersion :: "env \<Rightarrow> node \<Rightarrow> string \<Rightarrow> string \<Rightarrow> bool \<Rightarrow> error + Version" where
  "GetVersion E fs rootDir versionRelPath calcHashes =
     (let versionPath = Join rootDir versionRelPath in
      case ReadDir fs versionPath of
        Inl e \<Rightarrow> Inl e
      | Inr files \<Rightarrow>
          (case scan_files E fs rootDir versionRelPath calcHashes files
                  \<lparr>Checksums = None, ImageConfig = None, Items = []\<rparr> of
             Inl e \<Rightarrow> Inl e
           | Inr version \<Rightarrow>
               (case map_of (Items version) ItemTypeMetadata of
                  None \<Rightarrow> Inl ErrVersionIncomplete
                | Some metaItem \<Rightarrow>
                    (case combine E fs versionPath (Join versionPath (Name metaItem))
                            calcHashes (Items version) (metaItem, False) of
                       Inl e \<Rightarrow> Inl e
                     | Inr (metaItem', isVersionComplete) \<Rightarrow>
                         if \<not> isVersionComplete then Inl ErrVersionIncomplete
                         else Inr (version\<lparr>Items :=
                                AList.update ItemTypeMetadata metaItem' (Items version)\<rparr>)))))"

section \<open>Products\<close>

text \<open>The aliases an image config adds to a product: for each release of the config
  that is the product's release, one alias for each non-empty name of the
  comma-separated list, and a short one when the variant is \<open>default\<close>.\<close>

definition alias_for :: "Product \<Rightarrow> string \<Rightarrow> string list" where
  "alias_for p release =
     Join (Join (Distro p) release) (Variant p) #
     (if Variant p = ''default'' then [Join (Distro p) release] else [])"

definition config_aliases :: "Product \<Rightarrow> ImageConfig \<Rightarrow> string list" where
  "config_aliases p config =
     concat (map (\<lambda>(release, releaseAliases).
       if release \<noteq> Release p then []
       else concat (map (\<lambda>releaseAlias.
              (let a = filter (\<lambda>c. c \<noteq> CHR '' '') releaseAlias
               in if a = [] then [] else alias_for p a))
            (Split releaseAliases (CHR '',''))))
       (cfg_ReleaseAliases config))"

text \<open>The loop of \<open>GetProduct\<close> over the entries of the product directory: the state
  is the product and its aliases.\<close>

fun scan_versions ::
  "env \<Rightarrow> node \<Rightarrow> string \<Rightarrow> string \<Rightarrow> (string \<times> node) list \<Rightarrow> Product \<times> string list
     \<Rightarrow> error + Product \<times> string list"
where
  "scan_versions E fs rootDir productRelPath [] st = Inr st"
| "scan_versions E fs rootDir productRelPath ((name, f) # files) (p, aliases) =
     (if \<not> IsDir f then scan_versions E fs rootDir productRelPath files (p, aliases)
      else
        (case GetVersion E fs rootDir (Join productRelPath name) False of
           Inl e \<Rightarrow>
             if e = ErrVersionIncomplete
             then scan_versions E fs rootDir productRelPath files (p, aliases)
             else Inl e
         | Inr version \<Rightarrow>
             (let p1 = (case ImageConfig version of
                          None \<Rightarrow> p
                        | Some config \<Rightarrow>
                            (case cfg_Requirements config of
                               None \<Rightarrow> p
                             | Some r \<Rightarrow> p\<lparr>Requirements := r\<rparr>));
                  aliases1 = (case ImageConfig version of
                                None \<Rightarrow> aliases
                              | Some config \<Rightarrow> aliases @ config_aliases p1 config)
              in scan_versions E fs rootDir productRelPath files
                   (p1\<lparr>Versions := AList.update name version (Versions p1)\<rparr>, aliases1))))"

definition GetProduct :: "env \<Rightarrow> node \<Rightarrow> string \<Rightarrow> string \<Rightarrow> error + Product" where
  "GetProduct E fs rootDir productRelPath =
     (let productPath = Join rootDir productRelPath;
          parts = Split productRelPath (CHR ''/'')
      in if length parts \<noteq> 5 then Inl ErrProductInvalidPath
         else
           (case Stat fs productPath of
              None \<Rightarrow> Inl ErrProductInvalidPath
            | Some info \<Rightarrow>
                if \<not> IsDir info then Inl ErrProductInvalidPath
                else
                  (let p = zero_Product\<lparr>Variant := parts ! 4, Architecture := parts ! 3,
                                          Release := parts ! 2, Distro := parts ! 1\<rparr>;
                       aliases = alias_for p (Release p)
                   in case ReadDir fs productPath of
                        Inl e \<Rightarrow> Inl e
                      | Inr files \<Rightarrow>
                          (case scan_versions E fs rootDir productRelPath files (p, aliases) of
                             Inl e \<Rightarrow> Inl e
                           | Inr (p', aliases') \<Rightarrow>
                               Inr (p'\<lparr>Aliases := intercalate '','' aliases'\<rparr>)))))"

text \<open>\<open>filepath.WalkDir\<close> visits a directory before its entries; the paths are
  relative to the root directory, as \<open>filepath.Rel\<close> makes them.\<close>

fun walk_node :: "string \<Rightarrow> node \<Rightarrow> string list"
  and walk_entries :: "string \<Rightarrow> (string \<times> node) list \<Rightarrow> string list"
where
  "walk_node p (File _ _) = [p]"
| "walk_node p (Dir es) = p # walk_entries p es"
| "walk_entries p [] = []"
| "walk_entries p ((name, n) # es) = walk_node (Join p name) n @ walk_entries p es"

fun collect_products ::
  "env \<Rightarrow> node \<Rightarrow> string \<Rightarrow> string list \<Rightarrow> (string \<times> Product) list
     \<Rightarrow> error + (string \<times> Product) list"
where
  "collect_products E fs rootDir [] products = Inr products"
| "collect_products E fs rootDir (relPath # paths) products =
     (case GetProduct E fs rootDir relPath of
        Inl e \<Rightarrow>
          if e = ErrProductInvalidPath then collect_products E fs rootDir paths products
          else Inl e
      | Inr product \<Rightarrow>
          if length (Versions product) = 0 then collect_products E fs rootDir paths products
          else collect_products E fs rootDir paths (AList.update (ID product) product products))"

definition GetProducts :: "env \<Rightarrow> node \<Rightarrow> string \<Rightarrow> string \<Rightarrow> error + (string \<times> Product) list" where
  "GetProducts E fs rootDir streamRelPath =
     (case Stat fs (Join rootDir streamRelPath) of
        None \<Rightarrow> Inl ErrNotExist
      | Some n \<Rightarrow> collect_products E fs rootDir (walk_node (Join streamRelPath []) n) [])"

section \<open>The difference of two product maps\<close>

text \<open>The inner loop of \<open>diffProducts\<close> over the versions of a product that both maps
  have. The statement \<open>new[id].Versions[name] = v\<close> reads the product \<open>new[id]\<close>; for a
  missing key that is the zero product, whose \<open>Versions\<close> map is \<open>nil\<close>, and the
  assignment to an entry of a nil map panics.\<close>

fun diff_versions ::
  "string \<Rightarrow> (string \<times> Version) list \<Rightarrow> (string \<times> Version) list \<Rightarrow> (string \<times> Product) list
     \<Rightarrow> error + (string \<times> Product) list"
where
  "diff_versions pid others [] res = Inr res"
| "diff_versions pid others ((name, v) # vs) res =
     (case map_of others name of
        Some _ \<Rightarrow> diff_versions pid others vs res
      | None \<Rightarrow>
          (case map_of res pid of
             None \<Rightarrow> Inl Panic
           | Some q \<Rightarrow>
               diff_versions pid others vs
                 (AList.update pid (q\<lparr>Versions := AList.update name v (Versions q)\<rparr>) res)))"

text \<open>One of the two outer loops: the products of \<open>these\<close> that \<open>others\<close> lacks, and
  for the products both have, the versions \<open>others\<close> lacks.\<close>

fun diff_side ::
  "(string \<times> Product) list \<Rightarrow> (string \<times> Product) list \<Rightarrow> (string \<times> Product) list
     \<Rightarrow> error + (string \<times> Product) list"
where
  "diff_side others [] res = Inr res"
| "diff_side others ((pid, p) # these) res =
     (case map_of others pid of
        None \<Rightarrow> diff_side others these (AList.update pid p res)
      | Some other \<Rightarrow>
          (case diff_versions pid (Versions other) (Versions p) res of
             Inl e \<Rightarrow> Inl e
           | Inr res' \<Rightarrow> diff_side others these res'))"

definition diffProducts ::
  "(string \<times> Product) list \<Rightarrow> (string \<times> Product) list
     \<Rightarrow> error + (string \<times> Product) list \<times> (string \<times> Product) list"
where
  "diffProducts oldProducts newProducts =
     (case diff_side oldProducts newProducts [] of
        Inl e \<Rightarrow> Inl e
      | Inr new \<Rightarrow>
          (case diff_side newProducts oldProducts [] of
             Inl e \<Rightarrow> Inl e
           | Inr old \<Rightarrow> Inr (old, new)))"

section \<open>Delta files\<close>

definition CutSuffix :: "string \<Rightarrow> string \<Rightarrow> string" where
  "CutSuffix s suf = (if HasSuffix s suf then take (length s - length suf) s else s)"

text \<open>\<open>calcVCDiff\<close> returns at once when \<open>exec.LookPath\<close> does not find the tool.
  Otherwise it runs \<open>xdelta3 -e -s source target output\<close>, which reads two files and,
  without \<open>-f\<close>, does not overwrite its output. When the command fails the output path
  is removed. The result is the file system and the error, if any.\<close>

definition calcVCDiff :: "env \<Rightarrow> node \<Rightarrow> string \<Rightarrow> string \<Rightarrow> string \<Rightarrow> node \<times> error option" where
  "calcVCDiff E fs sourcePath targetPath outputPath =
     (if \<not> lookPath E then (fs, Some ErrNotExist)
      else
        (let failed = (case Remove fs outputPath of Inl _ \<Rightarrow> fs | Inr fs' \<Rightarrow> fs', Some ErrIO) in
         case (Stat fs sourcePath, Stat fs targetPath, Stat fs outputPath) of
           (Some (File _ s), Some (File _ t), None) \<Rightarrow>
             (case xdelta3 E s t of
                None \<Rightarrow> failed
              | Some d \<Rightarrow>
                  (case WriteFile E fs outputPath d of
                     Inl _ \<Rightarrow> failed
                   | Inr fs' \<Rightarrow> (fs', None)))
         | _ \<Rightarrow> failed))"

text \<open>The loop of \<open>createDeltaFiles\<close> over the items of the current version.\<close>

fun delta_items ::
  "env \<Rightarrow> node \<Rightarrow> string \<Rightarrow> string \<Rightarrow> string \<Rightarrow> Version \<Rightarrow> (string \<times> Item) list
     \<Rightarrow> node \<times> error option"
where
  "delta_items E fs productPath preName curName version [] = (fs, None)"
| "delta_items E fs productPath preName curName version ((k, item) # items) =
     (if Ftype item \<noteq> ItemTypeDiskKVM \<and> Ftype item \<noteq> ItemTypeSquashfs
      then delta_items E fs productPath preName curName version items
      else
        (let prefix = CutSuffix (Name item) (Ext (Name item));
             suffix = (if Ftype item = ItemTypeDiskKVM then ''qcow2.vcdiff'' else ''vcdiff'');
             vcdiff = prefix @ ''.'' @ preName @ ''.'' @ suffix
         in if map_of (Items version) vcdiff \<noteq> None
            then delta_items E fs productPath preName curName version items
            else
              (let sourcePath = Join (Join productPath preName) (Name item);
                   targetPath = Join (Join productPath curName) (Name item);
                   outputPath = Join (Join productPath curName) vcdiff
               in if Stat fs sourcePath = None
                  then delta_items E fs productPath preName curName version items
                  else
                    (case calcVCDiff E fs sourcePath targetPath outputPath of
                       (fs', Some e) \<Rightarrow> (fs', Some e)
                     | (fs', None) \<Rightarrow>
                         delta_items E fs' productPath preName curName version items))))"

text \<open>The loop over the sorted version names, as pairs of a version and its
  predecessor.\<close>

fun delta_versions ::
  "env \<Rightarrow> node \<Rightarrow> string \<Rightarrow> string \<Rightarrow> Product \<Rightarrow> (string \<times> string) list \<Rightarrow> node \<times> error option"
where
  "delta_versions E fs productPath versionName product [] = (fs, None)"
| "delta_versions E fs productPath versionName product ((preName, curName) # pairs) =
     (if versionName \<noteq> [] \<and> curName \<noteq> versionName
      then delta_versions E fs productPath versionName product pairs
      else
        (case map_of (Versions product) curName of
           None \<Rightarrow> delta_versions E fs productPath versionName product pairs
         | Some version \<Rightarrow>
             (case delta_items E fs productPath preName curName version (Items version) of
                (fs', Some e) \<Rightarrow> (fs', Some e)
              | (fs', None) \<Rightarrow> delta_versions E fs' productPath versionName product pairs)))"

definition createDeltaFiles ::
  "env \<Rightarrow> node \<Rightarrow> string \<Rightarrow> string \<Rightarrow> string \<Rightarrow> node \<times> error option"
where
  "createDeltaFiles E fs rootDir productRelPath versionName =
     (let productPath = Join rootDir productRelPath in
      case GetProduct E fs rootDir productRelPath of
        Inl e \<Rightarrow> (fs, Some e)
      | Inr product \<Rightarrow>
          (let versions = sort (map fst (Versions product))
           in if length versions < 2 then (fs, None)
              else delta_versions E fs productPath versionName product
                     (zip versions (tl versions))))"

section \<open>The build pipeline\<close>

text \<open>The checksum loop of a job, over the items of the version it has just read. It
  ends the job at a mismatch or when the checksum file cannot be extended (\<open>False\<close>).\<close>

fun verify_items ::
  "env \<Rightarrow> node \<Rightarrow> string \<Rightarrow> (string \<times> string) list \<Rightarrow> (string \<times> Item) list \<Rightarrow> node \<times> bool"
where
  "verify_items E fs checksumFile checksums [] = (fs, True)"
| "verify_items E fs checksumFile checksums ((k, item) # items) =
     (let ok = (map_of checksums (Name item) \<noteq> None);
          checksum = (case map_of checksums (Name item) of None \<Rightarrow> [] | Some c \<Rightarrow> c)
      in if \<not> ok \<and> (Ftype item = ItemTypeDiskKVMDelta \<or> Ftype item = ItemTypeSquashfsDelta)
         then (case AppendToFile E fs checksumFile
                      (checksum @ ''  '' @ Name item @ [CHR 0x0A]) of
                 Inl e \<Rightarrow> (fs, False)
               | Inr fs' \<Rightarrow> verify_items E fs' checksumFile checksums items)
         else if checksum \<noteq> SHA256 item then (fs, False)
         else verify_items E fs checksumFile checksums items)"

text \<open>One job: the deltas of the version, its hashes, its checksums, and its entry in
  the catalog. A job that fails logs the error and leaves the catalog as it is. The
  jobs of a build touch different versions; the model runs them one after the other,
  in the order in which they are queued.\<close>

definition add_version ::
  "env \<Rightarrow> node \<Rightarrow> string \<Rightarrow> string \<Rightarrow> string \<Rightarrow> string \<Rightarrow> (string \<times> Product) list
     \<Rightarrow> node \<times> (error + (string \<times> Product) list)"
where
  "add_version E fs rootDir pid productPath versionName products =
     (case createDeltaFiles E fs rootDir productPath versionName of
        (fs1, Some e) \<Rightarrow> (fs1, Inr products)
      | (fs1, None) \<Rightarrow>
          (let versionPath = Join productPath versionName in
           case GetVersion E fs1 rootDir versionPath True of
             Inl e \<Rightarrow> (fs1, Inr products)
           | Inr version \<Rightarrow>
               (case (case Checksums version of
                        None \<Rightarrow> (fs1, True)
                      | Some checksums \<Rightarrow>
                          verify_items E fs1
                            (Join (Join rootDir versionPath) FileChecksumSHA256)
                            checksums (Items version)) of
                  (fs2, False) \<Rightarrow> (fs2, Inr products)
                | (fs2, True) \<Rightarrow>
                    (case map_of products pid of
                       None \<Rightarrow> (fs2, Inl Panic)
                     | Some p \<Rightarrow>
                         (fs2, Inr (AList.update pid
                            (p\<lparr>Versions := AList.update versionName version (Versions p)\<rparr>)
                            products))))))"

fun add_versions ::
  "env \<Rightarrow> node \<Rightarrow> string \<Rightarrow> string \<Rightarrow> string \<Rightarrow> string list \<Rightarrow> (string \<times> Product) list
     \<Rightarrow> node \<times> (error + (string \<times> Product) list)"
where
  "add_versions E fs rootDir pid productPath [] products = (fs, Inr products)"
| "add_versions E fs rootDir pid productPath (versionName # names) products =
     (case add_version E fs rootDir pid productPath versionName products of
        (fs', Inl e) \<Rightarrow> (fs', Inl e)
      | (fs', Inr products') \<Rightarrow> add_versions E fs' rootDir pid productPath names products')"

text \<open>The loop of \<open>buildProductCatalog\<close> over the new products: \<open>found\<close> are the
  products of the directory tree, \<open>products\<close> those of the catalog.\<close>

fun add_products ::
  "env \<Rightarrow> node \<Rightarrow> string \<Rightarrow> string \<Rightarrow> (string \<times> Product) list \<Rightarrow> (string \<times> Product) list
     \<Rightarrow> (string \<times> Product) list \<Rightarrow> node \<times> (error + (string \<times> Product) list)"
where
  "add_products E fs rootDir streamName found [] products = (fs, Inr products)"
| "add_products E fs rootDir streamName found ((pid, p) # newProducts) products =
     (if length (Versions p) = 0
      then add_products E fs rootDir streamName found newProducts products
      else
        (let productPath = Join streamName (RelPath p);
             products1 =
               (case map_of products pid of
                  Some _ \<Rightarrow> products
                | None \<Rightarrow>
                    AList.update pid
                      ((case map_of found pid of None \<Rightarrow> zero_Product | Some q \<Rightarrow> q)
                         \<lparr>Versions := []\<rparr>)
                      products)
         in case add_versions E fs rootDir pid productPath (map fst (Versions p)) products1 of
              (fs', Inl e) \<Rightarrow> (fs', Inl e)
            | (fs', Inr products2) \<Rightarrow>
                add_products E fs' rootDir streamName found newProducts products2))"

text \<open>Modelled from the spec: \<open>shared.ReadJSONFile\<close> (not among the sources) on the
  path of the catalog: no catalog when the file is absent, an error when it cannot be
  read or parsed.\<close>

definition ReadCatalog :: "env \<Rightarrow> node \<Rightarrow> string \<Rightarrow> error + ProductCatalog option" where
  "ReadCatalog E fs p =
     (case Stat fs p of
        None \<Rightarrow> Inr None
      | Some (Dir _) \<Rightarrow> Inl ErrIO
      | Some (File _ bytes) \<Rightarrow>
          (case readCatalog E bytes of None \<Rightarrow> Inl ErrIO | Some c \<Rightarrow> Inr (Some c)))"

definition catalog_path :: "string \<Rightarrow> string \<Rightarrow> string \<Rightarrow> string" where
  "catalog_path rootDir streamVersion streamName =
     Join (Join (Join rootDir ''streams'') streamVersion) (streamName @ ''.json'')"

definition buildProductCatalog ::
  "env \<Rightarrow> node \<Rightarrow> string \<Rightarrow> string \<Rightarrow> string \<Rightarrow> node \<times> (error + ProductCatalog)"
where
  "buildProductCatalog E fs rootDir streamVersion streamName =
     (case ReadCatalog E fs (catalog_path rootDir streamVersion streamName) of
        Inl e \<Rightarrow> (fs, Inl e)
      | Inr loaded \<Rightarrow>
          (let catalog = (case loaded of None \<Rightarrow> NewCatalog [] | Some c \<Rightarrow> c) in
           case GetProducts E fs rootDir streamName of
             Inl e \<Rightarrow> (fs, Inl e)
           | Inr products \<Rightarrow>
               (case diffProducts (Products catalog) products of
                  Inl e \<Rightarrow> (fs, Inl e)
                | Inr (removed, newProducts) \<Rightarrow>
                    (case add_products E fs rootDir streamName products newProducts
                            (Products catalog) of
                       (fs', Inl e) \<Rightarrow> (fs', Inl e)
                     | (fs', Inr products') \<Rightarrow>
                         (fs', Inr (catalog\<lparr>Products := products'\<rparr>))))))"

section \<open>Publishing the catalogs and the index\<close>

record replace =
  OldPath :: string
  NewPath :: string

text \<open>The state of \<open>buildIndex\<close> while it stages the files: the file system, the
  renames to do, the index, and the paths of the deferred \<open>os.Remove\<close> calls (the
  last deferred first).\<close>

record build_state =
  bs_fs :: node
  bs_replaces :: "replace list"
  bs_index :: StreamIndex
  bs_defers :: "string list"

definition metaDir :: "string \<Rightarrow> string \<Rightarrow> string" where
  "metaDir rootDir streamVersion = Join (Join rootDir ''streams'') streamVersion"

definition catalogPath :: "string \<Rightarrow> string \<Rightarrow> string \<Rightarrow> string" where
  "catalogPath rootDir streamVersion streamName =
     Join (metaDir rootDir streamVersion) (streamName @ ''.json'')"

definition catalogPathTemp :: "string \<Rightarrow> string \<Rightarrow> string \<Rightarrow> string" where
  "catalogPathTemp rootDir streamVersion streamName =
     Join (metaDir rootDir streamVersion) (''.'' @ streamName @ ''.json.tmp'')"

definition indexPath :: "string \<Rightarrow> string \<Rightarrow> string" where
  "indexPath rootDir streamVersion = Join (metaDir rootDir streamVersion) ''index.json''"

definition indexPathTemp :: "string \<Rightarrow> string \<Rightarrow> string" where
  "indexPathTemp rootDir streamVersion = Join (metaDir rootDir streamVersion) ''.index.json.tmp''"

text \<open>The path of a catalog relative to the root directory, as \<open>filepath.Rel\<close> gives
  it.\<close>

definition catalogRelPath :: "string \<Rightarrow> string \<Rightarrow> string" where
  "catalogRelPath streamVersion streamName =
     Join (Join ''streams'' streamVersion) (streamName @ ''.json'')"

text \<open>The first loop of \<open>buildIndex\<close>: one catalog for each stream name, written to its
  temporary file.\<close>

fun stage_catalogs ::
  "env \<Rightarrow> string \<Rightarrow> string \<Rightarrow> string list \<Rightarrow> build_state \<Rightarrow> build_state \<times> error option"
where
  "stage_catalogs E rootDir streamVersion [] st = (st, None)"
| "stage_catalogs E rootDir streamVersion (streamName # names) st =
     (case buildProductCatalog E (bs_fs st) rootDir streamVersion streamName of
        (fs1, Inl e) \<Rightarrow> (st\<lparr>bs_fs := fs1\<rparr>, Some e)
      | (fs1, Inr catalog) \<Rightarrow>
          (case WriteFile E fs1 (catalogPathTemp rootDir streamVersion streamName)
                  (writeCatalog E catalog) of
             Inl e \<Rightarrow> (st\<lparr>bs_fs := fs1\<rparr>, Some e)
           | Inr fs2 \<Rightarrow>
               stage_catalogs E rootDir streamVersion names
                 (st\<lparr>bs_fs := fs2,
                     bs_defers := catalogPathTemp rootDir streamVersion streamName # bs_defers st,
                     bs_replaces := bs_replaces st @
                       [\<lparr>OldPath = catalogPathTemp rootDir streamVersion streamName,
                         NewPath = catalogPath rootDir streamVersion streamName\<rparr>],
                     bs_index := AddEntry E (bs_index st) streamName
                       (catalogRelPath streamVersion streamName) catalog\<rparr>)))"

definition stage_index :: "env \<Rightarrow> string \<Rightarrow> string \<Rightarrow> build_state \<Rightarrow> build_state \<times> error option" where
  "stage_index E rootDir streamVersion st =
     (case WriteFile E (bs_fs st) (indexPathTemp rootDir streamVersion)
             (writeIndex E (bs_index st)) of
        Inl e \<Rightarrow> (st, Some e)
      | Inr fs' \<Rightarrow>
          (st\<lparr>bs_fs := fs',
              bs_defers := indexPathTemp rootDir streamVersion # bs_defers st,
              bs_replaces := bs_replaces st @
                [\<lparr>OldPath = indexPathTemp rootDir streamVersion,
                  NewPath = indexPath rootDir streamVersion\<rparr>]\<rparr>, None))"

definition mode_0644 :: nat where
  "mode_0644 = 6 * 64 + 4 * 8 + 4"

text \<open>The last loop of \<open>buildIndex\<close>. It returns the file systems a reader can see
  while the loop runs, one after each system call that succeeded, and the error that
  stopped it, if any.\<close>

fun apply_replaces :: "node \<Rightarrow> replace list \<Rightarrow> node list \<times> error option" where
  "apply_replaces fs [] = ([], None)"
| "apply_replaces fs (r # rs) =
     (case Rename fs (OldPath r) (NewPath r) of
        Inl e \<Rightarrow> ([], Some e)
      | Inr fs1 \<Rightarrow>
          (case Chmod fs1 (NewPath r) mode_0644 of
             Inl e \<Rightarrow> ([fs1], Some e)
           | Inr fs2 \<Rightarrow>
               (case apply_replaces fs2 rs of
                  (states, err) \<Rightarrow> (fs1 # fs2 # states, err))))"

fun run_defers :: "node \<Rightarrow> string list \<Rightarrow> node" where
  "run_defers fs [] = fs"
| "run_defers fs (p # ps) = run_defers (case Remove fs p of Inl _ \<Rightarrow> fs | Inr fs' \<Rightarrow> fs') ps"

text \<open>\<open>buildIndex\<close> up to its last loop: the metadata directory, the catalogs and the
  index are staged. The result is the state in which the renames start, or the error
  that ended the function before.\<close>

definition stage ::
  "env \<Rightarrow> node \<Rightarrow> string \<Rightarrow> string \<Rightarrow> string list \<Rightarrow> build_state \<times> error option"
where
  "stage E fs rootDir streamVersion streamNames =
     (case MkdirAll fs (metaDir rootDir streamVersion) of
        Inl e \<Rightarrow>
          (\<lparr>bs_fs = fs, bs_replaces = [], bs_index = NewStreamIndex, bs_defers = []\<rparr>, Some e)
      | Inr fs0 \<Rightarrow>
          (case stage_catalogs E rootDir streamVersion streamNames
                  \<lparr>bs_fs = fs0, bs_replaces = [], bs_index = NewStreamIndex, bs_defers = []\<rparr> of
             (st, Some e) \<Rightarrow> (st, Some e)
           | (st, None) \<Rightarrow> stage_index E rootDir streamVersion st))"

definition buildIndex ::
  "env \<Rightarrow> node \<Rightarrow> string \<Rightarrow> string \<Rightarrow> string list \<Rightarrow> node \<times> error option"
where
  "buildIndex E fs rootDir streamVersion streamNames =
     (case stage E fs rootDir streamVersion streamNames of
        (st, Some e) \<Rightarrow> (run_defers (bs_fs st) (bs_defers st), Some e)
      | (st, None) \<Rightarrow>
          (case apply_replaces (bs_fs st) (bs_replaces st) of
             (states, err) \<Rightarrow> (run_defers (last (bs_fs st # states)) (bs_defers st), err)))"

section \<open>Pruning old versions\<close>

text \<open>Modelled from the spec: \<open>pruneStreamProductVersions\<close> (the prune command is not
  among the sources; its test \<open>TestPruneOldVersions\<close> and its how-to are), for one
  product of the stream. \<open>referenced\<close> are the version names the published catalog
  lists for the product, \<open>None\<close> when no catalog is published; \<open>disk\<close> are the
  version directories of the product, each with its name and whether it is complete.
  As in section 4.I of the spec: a number below 1 is refused; without a catalog the
  call does nothing; otherwise the versions on disk are enumerated, the incomplete
  ones too, and sorted by name; all but the newest \<open>keep\<close> complete ones are
  removed, and an incomplete one is removed in any case. One point is taken from the
  repository and not from the spec: the versions that are enumerated are those the
  catalog lists. The how-to says that "product versions are retrieved from existing
  product catalog" and leaves the others to the flag \<open>--dangling\<close>, and the test
  case "Ensure only referenced versions are prunned" expects the versions that the
  catalog does not list to stay.\<close>

record version_dir =
  vd_name :: string
  vd_complete :: bool

text \<open>The complete versions that are on disk.\<close>

definition complete_versions :: "version_dir list \<Rightarrow> string set" where
  "complete_versions disk = set (map vd_name (filter vd_complete disk))"

definition pruneProductVersions ::
  "int \<Rightarrow> string list option \<Rightarrow> version_dir list \<Rightarrow> error + version_dir list"
where
  "pruneProductVersions keep referenced disk =
     (if keep < 1 then Inl ErrInvalidArg
      else
        (case referenced of
           None \<Rightarrow> Inr disk
         | Some names \<Rightarrow>
             (let versions = sort (filter (\<lambda>n. n \<in> set names) (map vd_name disk));
                  complete = filter (\<lambda>n. n \<in> complete_versions disk) versions;
                  kept = drop (length complete - nat keep) complete
              in Inr (filter (\<lambda>d. vd_name d \<notin> set names \<or> vd_name d \<in> set kept) disk))))"


section \<open>Definitions for the statements, and sample inputs\<close>

text \<open>A name of a directory entry: not empty, not \<open>.\<close>, without a separator.\<close>

definition valid_name :: "string \<Rightarrow> bool" where
  "valid_name n = (n \<noteq> [] \<and> n \<noteq> ''.'' \<and> CHR ''/'' \<notin> set n)"

text \<open>An environment for the concrete runs below: the digest of some bytes is the
  bytes after \<open>sha256:\<close>, every \<open>image.yaml\<close> but one parses (to a file without
  a \<open>simplestreams\<close> key), the text of a catalog lists its products and versions,
  the text of an index lists its streams, and every delta is the same.\<close>

definition env0 :: env where
  "env0 = \<lparr>sha256 = (\<lambda>b. ''sha256:'' @ b),
     readYAML = (\<lambda>b. if b = ''simplestreams: ['' then None else Some None),
     readCatalog = (\<lambda>b. None),
     writeCatalog = (\<lambda>c. concat (map (\<lambda>(i, p). i @ ''='' @ concat (map (\<lambda>(v, x). v @ '','') (Versions p)) @ '';'') (Products c))),
     writeIndex = (\<lambda>i. concat (map (\<lambda>(n, e). n @ ''='' @ ie_Path e @ '';'') (ix_Index i))),
     lookPath = True,
     xdelta3 = (\<lambda>s t. Some ''delta''),
     dirSize = (\<lambda>p. 4096),
     createMode = 6 * 64,
     now = ''2024-01-01T00:00:00Z''\<rparr>"

text \<open>A product \<open>images/ubuntu/noble/amd64/cloud\<close> under the root \<open>/srv\<close> with the
  given version directories.\<close>

definition product_fs :: "(string \<times> node) list \<Rightarrow> node" where
  "product_fs versions =
     Dir [(''srv'', Dir [(''images'', Dir [(''ubuntu'', Dir [(''noble'', Dir [(''amd64'',
       Dir [(''cloud'', Dir versions)])])])])])]"




text \<open>A directory listing as the system gives it: the names are different, and each is
  the name of an entry.\<close>

definition wf_listing :: "(string \<times> node) list \<Rightarrow> bool" where
  "wf_listing files = (distinct (map fst files) \<and> list_all valid_name (map fst files))"

text \<open>The \<open>image.yaml\<close> of a version directory, if it has one, parses.\<close>

definition config_parses :: "env \<Rightarrow> (string \<times> node) list \<Rightarrow> bool" where
  "config_parses E files =
     (case map_of files FileImageConfig of
        Some (File m b) \<Rightarrow> readYAML E b \<noteq> None
      | _ \<Rightarrow> True)"

text \<open>A complete version directory, in the words of the spec: it has the metadata file
  \<open>lxd.tar.xz\<close> and at least one root file system, a file \<open>*.squashfs\<close> (item type
  \<open>squashfs\<close>) or \<open>*.qcow2\<close> (item type \<open>disk-kvm.img\<close>).\<close>

definition complete_dir :: "(string \<times> node) list \<Rightarrow> bool" where
  "complete_dir files =
     (list_ex (\<lambda>(name, n). name = ''lxd.tar.xz'' \<and> \<not> IsDir n) files
      \<and> list_ex (\<lambda>(name, n). \<not> IsDir n \<and> (HasSuffix name ''.squashfs'' \<or> HasSuffix name ''.qcow2''))
           files)"

text \<open>What the proofs keep about the items of a version while its directory is read:
  an item carries the name of a file of the directory that has an allowed extension,
  and its type follows the extension of the name.\<close>

definition item_ok :: "(string \<times> node) list \<Rightarrow> string \<Rightarrow> Item \<Rightarrow> bool" where
  "item_ok files k i =
     (Name i = k \<and> (\<exists>m b. map_of files k = Some (File m b)) \<and> has_allowed_ext k
      \<and> (Ftype i = ItemTypeSquashfs \<longleftrightarrow> Ext k = ''.squashfs'')
      \<and> (Ftype i = ItemTypeDiskKVM \<longleftrightarrow> Ext k = ''.qcow2'')
      \<and> (Ftype i = ItemTypeRootTarXz \<longleftrightarrow> k = ''root.tar.xz''))"

definition items_ok :: "(string \<times> node) list \<Rightarrow> (string \<times> Item) list \<Rightarrow> bool" where
  "items_ok files items =
     (distinct (map fst items) \<and> (\<forall>k i. map_of items k = Some i \<longrightarrow> item_ok files k i))"

text \<open>A pair of a product id and a version name is in a map of products.\<close>

definition has_version :: "(string \<times> Product) list \<Rightarrow> string \<Rightarrow> string \<Rightarrow> bool" where
  "has_version products pid name =
     (case map_of products pid of None \<Rightarrow> False | Some p \<Rightarrow> name \<in> fst ` set (Versions p))"

text \<open>A published catalog that lists two versions of a product, and a tree with that
  catalog in which the older version is gone from the product's directory. The
  environment \<open>env2\<close> reads the catalog from its file.\<close>

definition listed_catalog :: ProductCatalog where
  "listed_catalog = NewCatalog
     [(''ubuntu:noble:amd64:cloud'',
       zero_Product\<lparr>Aliases := ''ubuntu/noble/cloud'', Architecture := ''amd64'', Distro := ''ubuntu'',
         Release := ''noble'', Variant := ''cloud'',
         Versions := [(''2023_12_31'', \<lparr>Checksums = None, ImageConfig = None, Items = []\<rparr>),
                      (''2024_01_01'', \<lparr>Checksums = None, ImageConfig = None, Items = []\<rparr>)]\<rparr>)]"

definition env2 :: env where
  "env2 = env0\<lparr>readCatalog := (\<lambda>b. if b = ''listed catalog'' then Some listed_catalog else None)\<rparr>"

definition pruned_fs :: node where
  "pruned_fs =
     Dir [(''srv'',
       Dir [(''images'', Dir [(''ubuntu'', Dir [(''noble'', Dir [(''amd64'', Dir [(''cloud'',
               Dir [(''2024_01_01'',
                 Dir [(''lxd.tar.xz'', File 420 ''metadata''),
                      (''rootfs.squashfs'', File 420 ''rootfs'')])])])])])]),
            (''streams'', Dir [(''v1'', Dir [(''images.json'', File 420 ''listed catalog'')])])])]"


text \<open>The product of the test case "Ensure only complete versions are retained" of
  \<open>TestPruneOldVersions\<close>, and what the tests look at after a call: the complete
  versions that are left, which is what \<open>GetProduct\<close> lists.\<close>

definition disk_01_06 :: "version_dir list" where
  "disk_01_06 =
     [\<lparr>vd_name = ''2024_01_01'', vd_complete = False\<rparr>, \<lparr>vd_name = ''2024_01_02'', vd_complete = True\<rparr>,
      \<lparr>vd_name = ''2024_01_03'', vd_complete = True\<rparr>, \<lparr>vd_name = ''2024_01_04'', vd_complete = False\<rparr>,
      \<lparr>vd_name = ''2024_01_05'', vd_complete = True\<rparr>, \<lparr>vd_name = ''2024_01_06'', vd_complete = False\<rparr>]"

definition left_complete :: "error + version_dir list \<Rightarrow> error + string list" where
  "left_complete r = map_sum (\<lambda>e. e) (\<lambda>disk. map vd_name (filter vd_complete disk)) r"

text \<open>The product of the test case "Ensure only referenced versions are prunned" of
  \<open>TestPruneOldVersions\<close>: six complete versions on disk, of which the catalog lists
  the first four; and the versions the test expects after the call.\<close>

definition disk_2023_2028 :: "version_dir list" where
  "disk_2023_2028 = map (\<lambda>n. \<lparr>vd_name = n, vd_complete = True\<rparr>)
     [''2023'', ''2024'', ''2025'', ''2026'', ''2027'', ''2028'']"


text \<open>A root directory with two empty streams, one of them named \<open>index\<close>, and
  the run of \<open>buildIndex\<close> on both: the state in which its renames start, and the
  file systems a reader sees while they are applied.\<close>

definition streams_fs :: node where
  "streams_fs = Dir [(''srv'', Dir [(''images'', Dir []), (''index'', Dir [])])]"

definition index_build :: build_state where
  "index_build = fst (stage env0 streams_fs ''/srv'' ''v1'' [''index'', ''images''])"

definition index_states :: "node list" where
  "index_states = fst (apply_replaces (bs_fs index_build) (bs_replaces index_build))"

section \<open>Lemmas on strings and paths\<close>

lemma Split_nonempty: "Split s c \<noteq> []"
  by (induction s) (auto split: list.splits)

lemma Split_length: "length (Split s c) = Suc (length (filter (\<lambda>x. x = c) s))"
  by (induction s) (auto split: list.splits simp: Split_nonempty)

lemma Split_append_sep: "Split (xs @ c # ys) c = Split xs c @ Split ys c"
  by (induction xs) (auto split: list.splits simp: Split_nonempty)

lemma Split_no_sep: "c \<notin> set s \<Longrightarrow> Split s c = [s]"
  by (induction s) auto

lemma Split_pieces: "p \<in> set (Split s c) \<Longrightarrow> c \<notin> set p"
  by (induction s arbitrary: p) (auto split: list.splits if_splits)

lemma Split_intercalate:
  "cs \<noteq> [] \<Longrightarrow> \<forall>c \<in> set cs. sep \<notin> set c \<Longrightarrow> Split (intercalate [sep] cs) sep = cs"
proof (induction "[sep]" cs rule: intercalate.induct)
  case 1
  then show ?case by simp
next
  case (2 x)
  then show ?case by (simp add: Split_no_sep)
next
  case (3 x y ys)
  then show ?case by (simp add: Split_append_sep Split_no_sep)
qed

lemma HasSuffix_append: "HasSuffix (pre @ suf) suf"
  by (simp add: HasSuffix_def)

lemma HasSuffix_split: "HasSuffix s suf \<Longrightarrow> s = take (length s - length suf) s @ suf"
  by (metis HasSuffix_def append_take_drop_id)

lemma ext_scan_found:
  "ext_scan us acc \<noteq> [] \<Longrightarrow>
     \<exists>vs ws. us = vs @ CHR ''.'' # ws \<and> ext_scan us acc = CHR ''.'' # rev vs @ acc
       \<and> CHR ''.'' \<notin> set vs \<and> CHR ''/'' \<notin> set vs"
proof (induction us arbitrary: acc)
  case Nil
  then show ?case by simp
next
  case (Cons u us)
  show ?case
  proof (cases "u = CHR ''.''")
    case True
    then show ?thesis using Cons.prems by (intro exI[of _ "[]"] exI[of _ us]) simp
  next
    case False
    with Cons.prems have ne: "u \<noteq> CHR ''/''" and r: "ext_scan us (u # acc) \<noteq> []"
      by (auto split: if_splits)
    from Cons.IH[OF r] obtain vs ws where
      "us = vs @ CHR ''.'' # ws" "ext_scan us (u # acc) = CHR ''.'' # rev vs @ u # acc"
      "CHR ''.'' \<notin> set vs" "CHR ''/'' \<notin> set vs" by blast
    then show ?thesis using False ne
      by (intro exI[of _ "u # vs"] exI[of _ ws]) simp
  qed
qed

lemma ext_scan_app:
  "CHR ''/'' \<notin> set us \<Longrightarrow>
   ext_scan (us @ vs) acc =
     (if CHR ''.'' \<in> set us then ext_scan us acc else ext_scan vs (rev us @ acc))"
  by (induction us arbitrary: acc) auto

lemma ext_scan_none: "CHR ''.'' \<notin> set us \<Longrightarrow> ext_scan us acc = []"
  by (induction us arbitrary: acc) auto

lemma Ext_suffix: "Ext n \<noteq> [] \<Longrightarrow> \<exists>pre w. n = pre @ Ext n \<and> Ext n = CHR ''.'' # w"
proof -
  assume "Ext n \<noteq> []"
  then obtain vs ws where h: "rev n = vs @ CHR ''.'' # ws" "Ext n = CHR ''.'' # rev vs"
    unfolding Ext_def using ext_scan_found[of "rev n" "[]"] by auto
  from h(1) have "n = rev ws @ CHR ''.'' # rev vs"
    by (metis rev_append rev.simps(2) rev_rev_ident append.assoc append_Cons append_Nil)
  with h(2) show ?thesis by auto
qed

lemma Ext_dot: "Ext n \<noteq> [] \<Longrightarrow> CHR ''.'' \<in> set n"
  using Ext_suffix[of n] by (metis in_set_conv_decomp)

lemma Ext_of_suffix:
  "CHR ''.'' \<notin> set w \<Longrightarrow> CHR ''/'' \<notin> set w \<Longrightarrow> Ext (pre @ CHR ''.'' # w) = CHR ''.'' # w"
  by (simp add: Ext_def ext_scan_app)

lemma Ext_after_slash:
  "pre = [] \<or> last pre = CHR ''/'' \<Longrightarrow> CHR ''/'' \<notin> set n \<Longrightarrow> Ext (pre @ n) = Ext n"
proof -
  assume p: "pre = [] \<or> last pre = CHR ''/''" and n: "CHR ''/'' \<notin> set n"
  show ?thesis
  proof (cases "pre = []")
    case True
    then show ?thesis by simp
  next
    case False
    with p obtain q where "pre = q @ [CHR ''/'']" by (metis append_butlast_last_id)
    then have "rev pre = CHR ''/'' # rev q" by simp
    then show ?thesis using n
      by (simp add: Ext_def ext_scan_app ext_scan_none)
  qed
qed


lemma components_append_sep:
  "components (a @ CHR ''/'' # b) = components a @ components b"
  by (simp add: components_def Split_append_sep)

lemma components_props:
  "c \<in> set (components p) \<Longrightarrow> c \<noteq> [] \<and> c \<noteq> ''.'' \<and> CHR ''/'' \<notin> set c"
  by (auto simp: components_def dest: Split_pieces)

lemma components_intercalate:
  assumes "cs \<noteq> []" "\<forall>c \<in> set cs. c \<noteq> [] \<and> c \<noteq> ''.'' \<and> CHR ''/'' \<notin> set c"
  shows "components (intercalate ''/'' cs) = cs"
proof -
  have "Split (intercalate ''/'' cs) (CHR ''/'') = cs"
    using Split_intercalate[of cs "CHR ''/''"] assms by auto
  then show ?thesis using assms by (simp add: components_def filter_id_conv)
qed

lemma components_slash: "components (CHR ''/'' # s) = components s"
  by (simp add: components_def)

lemma components_Join: "components (Join a b) = components a @ components b"
proof -
  let ?cs = "components (a @ ''/'' @ b)"
  have cs: "?cs = components a @ components b"
    using components_append_sep[of a b] by simp
  have ok: "\<forall>c \<in> set ?cs. c \<noteq> [] \<and> c \<noteq> ''.'' \<and> CHR ''/'' \<notin> set c"
    using components_props by blast
  show ?thesis
  proof (cases "?cs = []")
    case True
    then show ?thesis using cs
      by (auto simp: Join_def components_def)
  next
    case False
    then obtain x xs where x: "?cs = x # xs" by (cases ?cs) auto
    have "components (intercalate ''/'' ?cs) = ?cs"
      using components_intercalate[OF False ok] .
    moreover have "a \<noteq> [] \<or> b \<noteq> []" using False by (auto simp: components_def)
    ultimately show ?thesis using cs x
      by (auto simp: Join_def components_slash simp del: intercalate.simps)
  qed
qed

lemma components_valid: "valid_name n \<Longrightarrow> components n = [n]"
  by (simp add: valid_name_def components_def Split_no_sep)

lemma lookup_node_append:
  "lookup_node fs (xs @ ys) =
     (case lookup_node fs xs of None \<Rightarrow> None | Some n \<Rightarrow> lookup_node n ys)"
proof (induction xs arbitrary: fs)
  case Nil
  then show ?case by simp
next
  case (Cons x xs)
  then show ?case by (cases fs) (auto split: option.splits)
qed

lemma intercalate_nonempty: "cs \<noteq> [] \<Longrightarrow> hd cs \<noteq> [] \<Longrightarrow> intercalate sep cs \<noteq> []"
  by (induction sep cs rule: intercalate.induct) auto

lemma Join_empty: "Join a b = [] \<longleftrightarrow> a = [] \<and> b = []"
proof (cases "components (a @ ''/'' @ b)")
  case Nil
  then show ?thesis by (auto simp: Join_def)
next
  case (Cons c cs)
  then have "c \<noteq> []" using components_props[of c "a @ ''/'' @ b"] by simp
  then have "intercalate ''/'' (c # cs) \<noteq> []" by (intro intercalate_nonempty) auto
  then show ?thesis using Cons by (auto simp: Join_def simp del: intercalate.simps)
qed

lemma Stat_nonempty: "p \<noteq> [] \<Longrightarrow> Stat fs p = lookup_node fs (components p)"
  by (simp add: Stat_def)

lemma Stat_Some: "Stat fs p = Some n \<Longrightarrow> p \<noteq> [] \<and> lookup_node fs (components p) = Some n"
  by (auto simp: Stat_def split: if_splits)

lemma Stat_Join:
  "a \<noteq> [] \<Longrightarrow>
   Stat fs (Join a b) = (case Stat fs a of None \<Rightarrow> None | Some n \<Rightarrow> lookup_node n (components b))"
  by (simp add: Stat_def Join_empty components_Join lookup_node_append)

lemma Stat_Join_name:
  "valid_name n \<Longrightarrow> Stat fs a = Some (Dir es) \<Longrightarrow> Stat fs (Join a n) = map_of es n"
  using Stat_Some[of fs a "Dir es"] by (simp add: Stat_Join components_valid split: option.splits)

lemma intercalate_snoc:
  "intercalate sep (cs @ [n]) = (if cs = [] then n else intercalate sep cs @ sep @ n)"
  by (induction sep cs rule: intercalate.induct) auto

lemma Join_last:
  assumes "components (Join a b) \<noteq> []"
  shows "\<exists>pre. Join a b = pre @ last (components (Join a b)) \<and> (pre = [] \<or> last pre = CHR ''/'')"
proof -
  let ?cs = "components (a @ ''/'' @ b)"
  have cs: "?cs = components (Join a b)"
    using components_append_sep[of a b] by (simp add: components_Join)
  with assms have ne: "?cs \<noteq> []" by simp
  then obtain x xs where x: "?cs = x # xs" by (cases ?cs) auto
  have ab: "a \<noteq> [] \<or> b \<noteq> []" using ne by (auto simp: components_def)
  let ?lead = "if a \<noteq> [] \<and> hd a = CHR ''/'' then ''/'' else []"
  have j: "Join a b = ?lead @ intercalate ''/'' ?cs"
    using ab x by (auto simp: Join_def simp del: intercalate.simps)
  have "intercalate ''/'' ?cs = intercalate ''/'' (butlast ?cs @ [last ?cs])"
    using ne by simp
  also have "\<dots> = (if butlast ?cs = [] then last ?cs
                    else intercalate ''/'' (butlast ?cs) @ ''/'' @ last ?cs)"
    by (rule intercalate_snoc)
  finally have i: "intercalate ''/'' ?cs =
     (if butlast ?cs = [] then last ?cs else intercalate ''/'' (butlast ?cs) @ ''/'' @ last ?cs)" .
  show ?thesis
  proof (cases "butlast ?cs = []")
    case True
    then show ?thesis using j i cs by (intro exI[of _ ?lead]) auto
  next
    case False
    then show ?thesis using j i cs
      by (intro exI[of _ "?lead @ intercalate ''/'' (butlast ?cs) @ ''/''"]) auto
  qed
qed

lemma Base_Join: "components (Join a b) \<noteq> [] \<Longrightarrow> Base (Join a b) = last (components (Join a b))"
  by (auto simp: Base_def split: list.splits)

lemma Ext_Join: "components (Join a b) \<noteq> [] \<Longrightarrow> Ext (Join a b) = Ext (Base (Join a b))"
proof -
  assume ne: "components (Join a b) \<noteq> []"
  from Join_last[OF ne] obtain pre where
    p: "Join a b = pre @ last (components (Join a b))" "pre = [] \<or> last pre = CHR ''/''" by blast
  have "CHR ''/'' \<notin> set (last (components (Join a b)))"
    using components_props[of "last (components (Join a b))" "Join a b"] ne by simp
  then have "Ext (pre @ last (components (Join a b))) = Ext (last (components (Join a b)))"
    using Ext_after_slash p(2) by blast
  then show ?thesis using p(1) Base_Join[OF ne] by simp
qed

lemma Ext_Join_empty: "components (Join a b) = [] \<Longrightarrow> Ext (Join a b) \<noteq> ''.vcdiff''"
proof -
  assume e: "components (Join a b) = []"
  then have "components (a @ ''/'' @ b) = []"
    using components_append_sep[of a b] by (simp add: components_Join)
  then have "Join a b = [] \<or> Join a b = ''/'' \<or> Join a b = ''.''"
    by (auto simp: Join_def)
  then show ?thesis by (auto simp: Ext_def)
qed

lemma Base_Join_name: "valid_name n \<Longrightarrow> Base (Join a n) = n"
  using Base_Join[of a n] by (simp add: components_Join components_valid)

lemma Ext_Join_name: "valid_name n \<Longrightarrow> Ext (Join a n) = Ext n"
  using Ext_Join[of a n] Base_Join_name[of n a] by (simp add: components_Join components_valid)

section \<open>Items: the delta classification\<close>

lemma read_files_no_panic: "read_files fs ps \<noteq> Inl Panic"
  by (induction ps) (auto split: option.splits node.splits sum.splits)

lemma FileHash_no_panic: "FileHash E fs ps \<noteq> Inl Panic"
  using read_files_no_panic[of fs ps] by (auto simp: FileHash_def split: sum.splits)

lemma Split_vcdiff: "HasSuffix n ''.vcdiff'' \<Longrightarrow> 2 \<le> length (Split n (CHR ''.''))"
proof -
  assume "HasSuffix n ''.vcdiff''"
  then obtain pre where "n = pre @ ''.vcdiff''" using HasSuffix_split by blast
  then show ?thesis by (simp add: Split_length)
qed

lemma Split_qcow2_vcdiff: "HasSuffix n ''.qcow2.vcdiff'' \<Longrightarrow> 3 \<le> length (Split n (CHR ''.''))"
proof -
  assume "HasSuffix n ''.qcow2.vcdiff''"
  then obtain pre where "n = pre @ ''.qcow2.vcdiff''" using HasSuffix_split by blast
  then show ?thesis by (simp add: Split_length)
qed

lemma Ext_HasSuffix: "Ext n = e \<Longrightarrow> e \<noteq> [] \<Longrightarrow> HasSuffix n e"
  using Ext_suffix[of n] HasSuffix_append by metis

lemma classify_no_panic:
  assumes "Ext itemPath = ''.vcdiff'' \<longrightarrow> Ext (Name item) = ''.vcdiff''"
  shows "classify itemPath item \<noteq> Inl Panic"
proof (cases "Ext itemPath = ''.vcdiff''")
  case False
  then show ?thesis by (auto simp: classify_def Let_def)
next
  case True
  with assms have "HasSuffix (Name item) ''.vcdiff''" using Ext_HasSuffix by fastforce
  then have 2: "2 \<le> length (Split (Name item) (CHR ''.''))" by (rule Split_vcdiff)
  have 3: "HasSuffix (Name item) ItemExtDiskKVMDelta \<Longrightarrow> 3 \<le> length (Split (Name item) (CHR ''.''))"
    using Split_qcow2_vcdiff by (simp add: ItemExtDiskKVMDelta_def)
  show ?thesis using True 2 3
    by (auto simp: classify_def Let_def from_end_def ItemExtSquashfs_def ItemExtDiskKVM_def)
qed


text \<open>
  C10. The delta classification of \<open>GetItem\<close> is total. A name that ends in
  \<open>.vcdiff\<close> splits on the dot into at least two pieces, a name that ends in
  \<open>.qcow2.vcdiff\<close> into at least three, so the reads at \<open>len - 2\<close> and
  \<open>len - 3\<close> are in range, and \<open>GetItem\<close> does not panic on any path.
\<close>

theorem GetItem_delta_total:
  "(HasSuffix name ItemExtSquashfsDelta \<longrightarrow> 2 \<le> length (Split name (CHR ''.'')))
   \<and> (HasSuffix name ItemExtDiskKVMDelta \<longrightarrow> 3 \<le> length (Split name (CHR ''.'')))
   \<and> GetItem E fs rootDir itemRelPath calcHash \<noteq> Inl Panic"
proof (intro conjI impI)
  assume "HasSuffix name ItemExtSquashfsDelta"
  then show "2 \<le> length (Split name (CHR ''.''))"
    using Split_vcdiff by (simp add: ItemExtSquashfsDelta_def)
next
  assume "HasSuffix name ItemExtDiskKVMDelta"
  then show "3 \<le> length (Split name (CHR ''.''))"
    using Split_qcow2_vcdiff by (simp add: ItemExtDiskKVMDelta_def)
next
  let ?p = "Join rootDir itemRelPath"
  have e: "Ext ?p = ''.vcdiff'' \<longrightarrow> Ext (Base ?p) = ''.vcdiff''"
    using Ext_Join[of rootDir itemRelPath] Ext_Join_empty[of rootDir itemRelPath] by metis
  have c: "\<And>item. Name item = Base ?p \<Longrightarrow> classify ?p item \<noteq> Inl Panic"
    using e classify_no_panic by simp
  show "GetItem E fs rootDir itemRelPath calcHash \<noteq> Inl Panic"
    using FileHash_no_panic[of E fs "[?p]"]
    by (auto simp: GetItem_def Let_def c split: option.splits sum.splits)
qed

theorem GetItem_delta_total_witness:
  "HasSuffix ''rootfs.2024_01_01.vcdiff'' ItemExtSquashfsDelta
   \<and> 2 \<le> length (Split ''rootfs.2024_01_01.vcdiff'' (CHR ''.''))
   \<and> HasSuffix ''disk.2024_01_01.qcow2.vcdiff'' ItemExtDiskKVMDelta
   \<and> 3 \<le> length (Split ''disk.2024_01_01.qcow2.vcdiff'' (CHR ''.''))
   \<and> GetItem env0 (Dir [(''.vcdiff'', File 420 ''x'')]) [] ''.vcdiff'' True \<noteq> Inl Panic"
  using GetItem_delta_total[of "''rootfs.2024_01_01.vcdiff''" env0
          "Dir [(''.vcdiff'', File 420 ''x'')]" "[]" "''.vcdiff''" True]
        GetItem_delta_total[of "''disk.2024_01_01.qcow2.vcdiff''" env0
          "Dir [(''.vcdiff'', File 420 ''x'')]" "[]" "''.vcdiff''" True]
  by (simp add: HasSuffix_def ItemExtSquashfsDelta_def ItemExtDiskKVMDelta_def)

text \<open>
  C9. \<open>GetItem\<close> takes the delta base of a \<open>.vcdiff\<close> name from the pieces between
  the dots. For the delta \<open>rootfs.1.0.vcdiff\<close>, which \<open>createDeltaFiles\<close> writes
  into version \<open>2.0\<close> for the item \<open>rootfs.squashfs\<close> and the source version \<open>1.0\<close>,
  the type is \<open>squashfs.vcdiff\<close> and the delta base is \<open>0\<close>, not the source version.
\<close>

theorem GetItem_delta_base_dotted_version:
  "GetItem E (product_fs [(''2.0'', Dir [(''rootfs.1.0.vcdiff'', File 420 bytes)])]) ''/srv''
       ''images/ubuntu/noble/amd64/cloud/2.0/rootfs.1.0.vcdiff'' False =
     Inr (zero_Item\<lparr>Name := ''rootfs.1.0.vcdiff'', Size := int (length bytes),
            Path := ''images/ubuntu/noble/amd64/cloud/2.0/rootfs.1.0.vcdiff'',
            Ftype := ''squashfs.vcdiff'', DeltaBase := ''0''\<rparr>)"
  by (simp add: GetItem_def Join_def components_def Stat_def Base_def classify_def Ext_def
      product_fs_def ItemTypeSquashfsDelta_def
      ItemExtSquashfs_def ItemExtDiskKVM_def ItemExtDiskKVMDelta_def HasSuffix_def from_end_def Let_def)

section \<open>The difference of two product maps: a product that both maps have\<close>

text \<open>
  C2. For a product that the old and the new map both have, and a version that only
  the new one has, \<open>diffProducts\<close> does not return: the product is not yet in the
  result map, and the assignment to the \<open>Versions\<close> map of the zero product
  panics.
\<close>

theorem diffProducts_new_version_panics:
  "diffProducts [(pid, p\<lparr>Versions := [(''v1'', v)]\<rparr>)]
                [(pid, q\<lparr>Versions := [(''v1'', v'), (''v2'', w)]\<rparr>)] = Inl Panic"
  by (simp add: diffProducts_def)

section \<open>The checksum of a new delta\<close>

text \<open>
  C1. For a delta item whose name the checksums map lacks, the job appends a line made
  of the value it looked up in the map, which is the empty string, two spaces and the
  name. The SHA-256 \<open>sha\<close> that was computed for the item is not in the line.
\<close>

theorem verify_items_appends_empty_checksum:
  "verify_items E (Dir [(''SHA256SUMS'', File 420 old)]) ''SHA256SUMS'' []
     [(''rootfs.2024_01_01.vcdiff'',
       zero_Item\<lparr>Name := ''rootfs.2024_01_01.vcdiff'', Ftype := ItemTypeSquashfsDelta,
                   SHA256 := sha\<rparr>)]
   = (Dir [(''SHA256SUMS'', File 420 (old @ ''  rootfs.2024_01_01.vcdiff'' @ [CHR 0x0A]))], True)"
  by (simp add: AppendToFile_def Stat_def components_def ItemTypeSquashfsDelta_def
      ItemTypeDiskKVMDelta_def zero_Item_def)

section \<open>Hidden versions\<close>

text \<open>
  C3. A version directory whose name begins with a dot and that holds a metadata file
  and a root file system is a version of the product \<open>GetProduct\<close> returns, and of
  the catalog \<open>buildProductCatalog\<close> builds.
\<close>

theorem GetProduct_includes_hidden_version:
  "map_sum (\<lambda>e. e) (\<lambda>p. map fst (Versions p))
     (GetProduct E
        (product_fs [(''.2024_01_01'',
           Dir [(''lxd.tar.xz'', File 420 ''metadata''), (''rootfs.squashfs'', File 420 ''rootfs'')])])
        ''/srv'' ''images/ubuntu/noble/amd64/cloud'') = Inr [''.2024_01_01'']
   \<and> map_sum (\<lambda>e. e) (\<lambda>c. map (\<lambda>(i, p). (i, map fst (Versions p))) (Products c))
     (snd (buildProductCatalog E
        (product_fs [(''.2024_01_01'',
           Dir [(''lxd.tar.xz'', File 420 ''metadata''), (''rootfs.squashfs'', File 420 ''rootfs'')])])
        ''/srv'' ''v1'' ''images'')) = Inr [(''ubuntu:noble:amd64:cloud'', [''.2024_01_01''])]"
  by code_simp

section \<open>The checksum file\<close>









section \<open>Versions: completeness\<close>

lemmas item_consts =
  FileChecksumSHA256_def FileImageConfig_def
  ItemTypeMetadata_def ItemTypeSquashfs_def ItemTypeSquashfsDelta_def ItemTypeDiskKVM_def
  ItemTypeDiskKVMDelta_def ItemTypeRootTarXz_def ItemExtMetadata_def ItemExtSquashfs_def
  ItemExtSquashfsDelta_def ItemExtDiskKVM_def ItemExtDiskKVMDelta_def allowedItemExtensions_def

lemma Stat_components:
  "components p = components q \<Longrightarrow> p \<noteq> [] \<Longrightarrow> q \<noteq> [] \<Longrightarrow> Stat fs p = Stat fs q"
  by (simp add: Stat_def)

lemma Stat_entry:
  assumes "Stat fs (Join rootDir vrel) = Some (Dir files)" "valid_name name"
  shows "Stat fs (Join rootDir (Join vrel name)) = map_of files name"
    and "Stat fs (Join (Join rootDir vrel) name) = map_of files name"
proof -
  show 2: "Stat fs (Join (Join rootDir vrel) name) = map_of files name"
    using Stat_Join_name[OF assms(2,1)] .
  have n: "name \<noteq> []" using assms(2) by (simp add: valid_name_def)
  have "components (Join rootDir (Join vrel name)) = components (Join (Join rootDir vrel) name)"
    by (simp add: components_Join)
  from Stat_components[OF this] 2 n
  show "Stat fs (Join rootDir (Join vrel name)) = map_of files name" by (simp add: Join_empty)
qed

lemma entry_path:
  assumes "valid_name name"
  shows "Base (Join rootDir (Join vrel name)) = name" "Ext (Join rootDir (Join vrel name)) = Ext name"
proof -
  have c: "components (Join rootDir (Join vrel name)) = (components rootDir @ components vrel) @ [name]"
    using assms by (simp add: components_Join components_valid)
  then have ne: "components (Join rootDir (Join vrel name)) \<noteq> []" by simp
  show b: "Base (Join rootDir (Join vrel name)) = name"
    using Base_Join[OF ne] c by simp
  show "Ext (Join rootDir (Join vrel name)) = Ext name"
    using Ext_Join[OF ne] b by simp
qed

lemma allowed_not_type:
  "has_allowed_ext k \<Longrightarrow> k \<noteq> ''squashfs'' \<and> k \<noteq> ''disk-kvm.img''"
  by (auto simp: has_allowed_ext_def item_consts HasSuffix_def)

lemma Ext_root_tar_xz: "Ext ''root.tar.xz'' = ''.xz''"
  by (simp add: Ext_def)

lemma classify_ok:
  assumes "Ext p = Ext (Name item)" "has_allowed_ext (Name item)"
  shows "\<exists>i. classify p item = Inr i \<and> Name i = Name item
     \<and> (Ftype i = ItemTypeSquashfs \<longleftrightarrow> Ext (Name item) = ''.squashfs'')
     \<and> (Ftype i = ItemTypeDiskKVM \<longleftrightarrow> Ext (Name item) = ''.qcow2'')
     \<and> (Ftype i = ItemTypeRootTarXz \<longleftrightarrow> Name item = ''root.tar.xz'')"
proof -
  have np: "classify p item \<noteq> Inl Panic" using classify_no_panic assms(1) by simp
  note nt = allowed_not_type[OF assms(2)]
  show ?thesis
  proof (cases "Ext p = ''.vcdiff''")
    case True
    then have x: "Name item \<noteq> ''root.tar.xz''" using assms(1) Ext_root_tar_xz by auto
    show ?thesis using True np assms(1) x
      by (auto simp: classify_def Let_def item_consts from_end_def split: sum.splits if_splits)
  next
    case False
    show ?thesis using False assms(1) nt Ext_root_tar_xz
      by (auto simp: classify_def Let_def item_consts)
  qed
qed

lemma GetItem_file:
  assumes "Stat fs (Join rootDir vrel) = Some (Dir files)"
    and "map_of files name = Some (File m b)" "valid_name name" "has_allowed_ext name"
  shows "\<exists>i. GetItem E fs rootDir (Join vrel name) calc = Inr i \<and> item_ok files name i"
proof -
  let ?p = "Join rootDir (Join vrel name)"
  have s: "Stat fs ?p = Some (File m b)" using Stat_entry(1)[OF assms(1,3)] assms(2) by simp
  have bp: "Base ?p = name" "Ext ?p = Ext name" using entry_path[OF assms(3)] by auto
  have h: "FileHash E fs [?p] = Inr (sha256 E b)" by (simp add: FileHash_def s)
  have c: "\<And>item. Name item = name \<Longrightarrow> \<exists>i. classify ?p item = Inr i \<and> item_ok files name i"
  proof -
    fix item :: Item assume n: "Name item = name"
    from classify_ok[of ?p item] bp n assms(4) obtain i where
      "classify ?p item = Inr i" "Name i = name"
      "Ftype i = ItemTypeSquashfs \<longleftrightarrow> Ext name = ''.squashfs''"
      "Ftype i = ItemTypeDiskKVM \<longleftrightarrow> Ext name = ''.qcow2''"
      "Ftype i = ItemTypeRootTarXz \<longleftrightarrow> name = ''root.tar.xz''" by auto
    then show "\<exists>i. classify ?p item = Inr i \<and> item_ok files name i"
      using assms(2,4) by (auto simp: item_ok_def)
  qed
  show ?thesis
  proof (cases calc)
    case True
    then show ?thesis using s h bp c[of "zero_Item\<lparr>Name := name, Size := node_size E (Join rootDir (Join vrel name)) (File m b), Path := Join vrel name, SHA256 := sha256 E b\<rparr>"]
      by (simp add: GetItem_def Let_def)
  next
    case False
    then show ?thesis using s bp c[of "zero_Item\<lparr>Name := name, Size := node_size E (Join rootDir (Join vrel name)) (File m b), Path := Join vrel name\<rparr>"]
      by (simp add: GetItem_def Let_def)
  qed
qed

lemma wf_entry:
  assumes "wf_listing all" "(name, n) \<in> set all"
  shows "valid_name name" "map_of all name = Some n"
  using assms by (auto simp: wf_listing_def list_all_iff)

lemma wf_key: "wf_listing all \<Longrightarrow> map_of all k = Some n \<Longrightarrow> valid_name k"
  by (auto simp: wf_listing_def list_all_iff dest: map_of_SomeD)

lemma items_ok_update:
  "items_ok all items \<Longrightarrow> item_ok all k i \<Longrightarrow> items_ok all (AList.update k i items)"
  by (auto simp: items_ok_def distinct_update update_conv')

lemma scan_files_inv:
  assumes st: "Stat fs (Join rootDir vrel) = Some (Dir all)"
    and wf: "wf_listing all" and cfg: "config_parses E all"
  shows "set files \<subseteq> set all \<Longrightarrow> items_ok all (Items v) \<Longrightarrow>
     \<exists>v'. scan_files E fs rootDir vrel calc files v = Inr v' \<and> items_ok all (Items v')
       \<and> fst ` set (Items v') =
           fst ` set (Items v) \<union> {name. \<exists>m b. (name, File m b) \<in> set files \<and> has_allowed_ext name}"
proof (induction files arbitrary: v)
  case Nil
  then show ?case by simp
next
  case (Cons f files)
  obtain name nd where f: "f = (name, nd)" by (cases f)
  from Cons.prems f have mem: "(name, nd) \<in> set all" and sub: "set files \<subseteq> set all" by auto
  note e = wf_entry[OF wf mem]
  show ?case
  proof (cases nd)
    case (Dir es)
    from Cons.IH[OF sub Cons.prems(2)] show ?thesis using f Dir by auto
  next
    case (File m b)
    have sp: "Stat fs (Join (Join rootDir vrel) name) = Some (File m b)"
      using Stat_entry(2)[OF st e(1)] e(2) File by simp
    show ?thesis
    proof (cases "has_allowed_ext name")
      case True
      from GetItem_file[OF st _ e(1) True, of m b E calc] e(2) File obtain i where
        i: "GetItem E fs rootDir (Join vrel name) calc = Inr i" "item_ok all name i" by auto
      let ?v1 = "v\<lparr>Items := AList.update name i (Items v)\<rparr>"
      have ok1: "items_ok all (Items ?v1)" using items_ok_update[OF Cons.prems(2) i(2)] by simp
      from Cons.IH[OF sub ok1] obtain v' where
        v': "scan_files E fs rootDir vrel calc files ?v1 = Inr v'" "items_ok all (Items v')"
        "fst ` set (Items v') = fst ` set (Items ?v1) \<union>
           {name. \<exists>m b. (name, File m b) \<in> set files \<and> has_allowed_ext name}" by blast
      have "scan_files E fs rootDir vrel calc (f # files) v = Inr v'"
        using f File True i(1) v'(1) by simp
      moreover have "fst ` set (Items v') = fst ` set (Items v) \<union>
           {n. \<exists>m b. (n, File m b) \<in> set (f # files) \<and> has_allowed_ext n}"
        using v'(3) f File True by (auto simp: dom_update)
      ultimately show ?thesis using v'(2) by blast
    next
      case False
      have othr: "{n. \<exists>m b. (n, File m b) \<in> set (f # files) \<and> has_allowed_ext n} =
                  {n. \<exists>m b. (n, File m b) \<in> set files \<and> has_allowed_ext n}"
        using f False by auto
      show ?thesis
      proof (cases "name = FileChecksumSHA256")
        case True
        let ?v1 = "v\<lparr>Checksums := Some (checksum_lines (scan_lines b) [])\<rparr>"
        have ok1: "items_ok all (Items ?v1)" using Cons.prems(2) by simp
        from Cons.IH[OF sub ok1] obtain v' where
          v': "scan_files E fs rootDir vrel calc files ?v1 = Inr v'" "items_ok all (Items v')"
          "fst ` set (Items v') = fst ` set (Items ?v1) \<union>
             {name. \<exists>m b. (name, File m b) \<in> set files \<and> has_allowed_ext name}" by blast
        have "scan_files E fs rootDir vrel calc (f # files) v = Inr v'"
          using f File False True v'(1) sp by (simp add: ReadChecksumFile_def)
        then show ?thesis using v'(2,3) othr by auto
      next
        case nc: False
        show ?thesis
        proof (cases "name = FileImageConfig")
          case True
          from cfg e(2) File True obtain c where c: "readYAML E b = Some c"
            by (auto simp: config_parses_def)
          let ?v1 = "case c of None \<Rightarrow> v | Some c' \<Rightarrow> v\<lparr>ImageConfig := Some c'\<rparr>"
          have ok1: "items_ok all (Items ?v1)" using Cons.prems(2) by (cases c) auto
          from Cons.IH[OF sub ok1] obtain v' where
            v': "scan_files E fs rootDir vrel calc files ?v1 = Inr v'" "items_ok all (Items v')"
            "fst ` set (Items v') = fst ` set (Items ?v1) \<union>
               {name. \<exists>m b. (name, File m b) \<in> set files \<and> has_allowed_ext name}" by blast
          have i1: "Items ?v1 = Items v" by (cases c) auto
          have "scan_files E fs rootDir vrel calc (f # files) v = Inr v'"
            using f File False nc True v'(1) sp c by (simp add: ReadYAMLFile_def)
          then show ?thesis using v'(2,3) othr i1 by auto
        next
          case False
          from Cons.IH[OF sub Cons.prems(2)] obtain v' where
            v': "scan_files E fs rootDir vrel calc files v = Inr v'" "items_ok all (Items v')"
            "fst ` set (Items v') = fst ` set (Items v) \<union>
               {name. \<exists>m b. (name, File m b) \<in> set files \<and> has_allowed_ext name}" by blast
          have "scan_files E fs rootDir vrel calc (f # files) v = Inr v'"
            using f File \<open>\<not> has_allowed_ext name\<close> nc False v'(1) by simp
          then show ?thesis using v'(2,3) othr by auto
        qed
      qed
    qed
  qed
qed

lemma combine_ok:
  assumes st: "Stat fs (Join rootDir vrel) = Some (Dir all)"
    and wf: "wf_listing all" and mt: "map_of all mname = Some (File mm mb)"
  shows "(\<And>k i. (k, i) \<in> set items \<Longrightarrow> item_ok all k i) \<Longrightarrow>
     \<exists>meta' c'. combine E fs (Join rootDir vrel) (Join (Join rootDir vrel) mname) calc items (meta, c)
          = Inr (meta', c')
       \<and> (c' \<longleftrightarrow> c \<or> (\<exists>k i. (k, i) \<in> set items
                \<and> (Ftype i = ItemTypeSquashfs \<or> Ftype i = ItemTypeDiskKVM)))
       \<and> (\<forall>rm rb. map_of all ''root.tar.xz'' = Some (File rm rb) \<longrightarrow>
            CombinedSHA256RootXz meta' =
              (if ''root.tar.xz'' \<in> fst ` set items
               then (if calc then sha256 E (mb @ rb) else [])
               else CombinedSHA256RootXz meta))"
proof (induction items arbitrary: meta c)
  case Nil
  then show ?case by simp
next
  case (Cons x items)
  obtain k i where x: "x = (k, i)" by (cases x)
  from Cons.prems x have ok: "item_ok all k i" by simp
  then obtain m b where kb: "map_of all k = Some (File m b)" and nm: "Name i = k"
    and rt: "Ftype i = ItemTypeRootTarXz \<longleftrightarrow> k = ''root.tar.xz''"
    by (auto simp: item_ok_def)
  have rest: "\<And>k i. (k, i) \<in> set items \<Longrightarrow> item_ok all k i" using Cons.prems by simp
  have sm: "Stat fs (Join (Join rootDir vrel) mname) = Some (File mm mb)"
    using Stat_entry(2)[OF st wf_key[OF wf mt]] mt by simp
  have sk: "Stat fs (Join (Join rootDir vrel) k) = Some (File m b)"
    using Stat_entry(2)[OF st wf_key[OF wf kb]] kb by simp
  have h: "FileHash E fs [Join (Join rootDir vrel) mname, Join (Join rootDir vrel) (Name i)]
             = Inr (sha256 E (mb @ b))"
    by (simp add: FileHash_def sm sk nm)
  let ?h = "if calc then sha256 E (mb @ b) else []"
  have hh: "(if calc then FileHash E fs [Join (Join rootDir vrel) mname,
                Join (Join rootDir vrel) (Name i)] else Inr []) = Inr ?h"
    using h by simp
  define m1 where "m1 =
      (if Ftype i = ItemTypeDiskKVM then meta\<lparr>CombinedSHA256DiskKvmImg := ?h\<rparr>
       else if Ftype i = ItemTypeSquashfs then meta\<lparr>CombinedSHA256SquashFs := ?h\<rparr>
       else if Ftype i = ItemTypeRootTarXz then meta\<lparr>CombinedSHA256RootXz := ?h\<rparr>
       else meta)"
  define c1 where "c1 \<longleftrightarrow> c \<or> Ftype i = ItemTypeSquashfs \<or> Ftype i = ItemTypeDiskKVM"
  have step: "combine E fs (Join rootDir vrel) (Join (Join rootDir vrel) mname) calc (x # items) (meta, c)
      = combine E fs (Join rootDir vrel) (Join (Join rootDir vrel) mname) calc items (m1, c1)"
    unfolding x combine.simps hh m1_def c1_def by (simp add: item_consts)
  from Cons.IH[OF rest, of m1 c1] obtain meta' c' where
    r: "combine E fs (Join rootDir vrel) (Join (Join rootDir vrel) mname) calc items (m1, c1)
          = Inr (meta', c')"
    and cc: "c' \<longleftrightarrow> c1 \<or> (\<exists>k i. (k, i) \<in> set items
                \<and> (Ftype i = ItemTypeSquashfs \<or> Ftype i = ItemTypeDiskKVM))"
    and rr: "\<forall>rm rb. map_of all ''root.tar.xz'' = Some (File rm rb) \<longrightarrow>
            CombinedSHA256RootXz meta' =
              (if ''root.tar.xz'' \<in> fst ` set items
               then (if calc then sha256 E (mb @ rb) else [])
               else CombinedSHA256RootXz m1)"
    by blast
  have c2: "c' \<longleftrightarrow> c \<or> (\<exists>k i. (k, i) \<in> set (x # items)
                \<and> (Ftype i = ItemTypeSquashfs \<or> Ftype i = ItemTypeDiskKVM))"
    unfolding cc c1_def x by auto
  have r2: "\<forall>rm rb. map_of all ''root.tar.xz'' = Some (File rm rb) \<longrightarrow>
            CombinedSHA256RootXz meta' =
              (if ''root.tar.xz'' \<in> fst ` set (x # items)
               then (if calc then sha256 E (mb @ rb) else [])
               else CombinedSHA256RootXz meta)"
  proof (intro allI impI)
    fix rm rb assume a: "map_of all ''root.tar.xz'' = Some (File rm rb)"
    from rr a have e: "CombinedSHA256RootXz meta' =
              (if ''root.tar.xz'' \<in> fst ` set items
               then (if calc then sha256 E (mb @ rb) else [])
               else CombinedSHA256RootXz m1)" by blast
    show "CombinedSHA256RootXz meta' =
              (if ''root.tar.xz'' \<in> fst ` set (x # items)
               then (if calc then sha256 E (mb @ rb) else [])
               else CombinedSHA256RootXz meta)"
    proof (cases "k = ''root.tar.xz''")
      case True
      then have "Ftype i = ItemTypeRootTarXz" "b = rb" using rt kb a by auto
      then have "CombinedSHA256RootXz m1 = (if calc then sha256 E (mb @ rb) else [])"
        by (simp add: m1_def item_consts)
      then show ?thesis using e True x by simp
    next
      case False
      then have "Ftype i \<noteq> ItemTypeRootTarXz" using rt by simp
      then have "CombinedSHA256RootXz m1 = CombinedSHA256RootXz meta" by (simp add: m1_def)
      then show ?thesis using e False x by simp
    qed
  qed
  have "combine E fs (Join rootDir vrel) (Join (Join rootDir vrel) mname) calc (x # items) (meta, c)
      = Inr (meta', c')" by (simp only: step r)
  with c2 r2 show ?case by blast
qed

lemma Ext_iff_suffix:
  "CHR ''.'' \<notin> set w \<Longrightarrow> CHR ''/'' \<notin> set w \<Longrightarrow>
     Ext k = CHR ''.'' # w \<longleftrightarrow> HasSuffix k (CHR ''.'' # w)"
proof
  assume "Ext k = CHR ''.'' # w"
  then show "HasSuffix k (CHR ''.'' # w)" using Ext_HasSuffix by fastforce
next
  assume a: "CHR ''.'' \<notin> set w" "CHR ''/'' \<notin> set w" and "HasSuffix k (CHR ''.'' # w)"
  then obtain pre where "k = pre @ CHR ''.'' # w" using HasSuffix_split by blast
  then show "Ext k = CHR ''.'' # w" using Ext_of_suffix[OF a] by simp
qed

lemma rootfs_ext:
  "(Ext k = ''.squashfs'' \<or> Ext k = ''.qcow2'') \<longleftrightarrow>
   (HasSuffix k ''.squashfs'' \<or> HasSuffix k ''.qcow2'')"
  using Ext_iff_suffix[of "''squashfs''" k] Ext_iff_suffix[of "''qcow2''" k] by simp

lemma rootfs_allowed: "HasSuffix k ''.squashfs'' \<or> HasSuffix k ''.qcow2'' \<Longrightarrow> has_allowed_ext k"
  by (auto simp: has_allowed_ext_def item_consts)

lemma lxd_allowed: "has_allowed_ext ''lxd.tar.xz''"
  by (simp add: has_allowed_ext_def item_consts HasSuffix_def)

lemma complete_dir_iff:
  "complete_dir files \<longleftrightarrow>
     (\<exists>m b. (''lxd.tar.xz'', File m b) \<in> set files)
     \<and> (\<exists>k m b. (k, File m b) \<in> set files \<and> (HasSuffix k ''.squashfs'' \<or> HasSuffix k ''.qcow2''))"
proof -
  have d: "\<And>n. \<not> IsDir n \<longleftrightarrow> (\<exists>m b. n = File m b)" by (case_tac n) auto
  show ?thesis unfolding complete_dir_def list_ex_iff d by fastforce
qed

lemma root_allowed: "has_allowed_ext ''root.tar.xz''"
  by (simp add: has_allowed_ext_def item_consts HasSuffix_def)

lemma items_ok_mem: "items_ok all items \<Longrightarrow> (k, i) \<in> set items \<Longrightarrow> item_ok all k i"
  by (auto simp: items_ok_def)

lemma key_item: "k \<in> fst ` set items \<Longrightarrow> \<exists>i. map_of items k = Some i \<and> (k, i) \<in> set items"
  by (metis map_of_SomeD map_of_eq_None_iff not_Some_eq)

lemma GetVersion_parsed:
  assumes rd: "ReadDir fs (Join rootDir versionRelPath) = Inr files"
    and wf: "wf_listing files" and cfg: "config_parses E files"
  shows "(complete_dir files \<longrightarrow>
           (\<exists>v. GetVersion E fs rootDir versionRelPath calcHashes = Inr v
              \<and> (\<forall>mm mb rm rb. map_of files ''lxd.tar.xz'' = Some (File mm mb) \<longrightarrow>
                     map_of files ''root.tar.xz'' = Some (File rm rb) \<longrightarrow>
                   (\<exists>meta. map_of (Items v) ''lxd.tar.xz'' = Some meta
                      \<and> CombinedSHA256RootXz meta = (if calcHashes then sha256 E (mb @ rb) else [])))))
       \<and> (\<not> complete_dir files \<longrightarrow>
             GetVersion E fs rootDir versionRelPath calcHashes = Inl ErrVersionIncomplete)"
proof -
  let ?vp = "Join rootDir versionRelPath"
  let ?v0 = "\<lparr>Checksums = None, ImageConfig = None, Items = []\<rparr>"
  have st: "Stat fs ?vp = Some (Dir files)"
    using rd by (auto simp: ReadDir_def split: option.splits node.splits)
  have ok0: "items_ok files (Items ?v0)" by (simp add: items_ok_def)
  from scan_files_inv[OF st wf cfg subset_refl ok0, of calcHashes] obtain v1 where
    sc: "scan_files E fs rootDir versionRelPath calcHashes files ?v0 = Inr v1"
    and ok: "items_ok files (Items v1)"
    and keys: "fst ` set (Items v1) =
                 {name. \<exists>m b. (name, File m b) \<in> set files \<and> has_allowed_ext name}"
    by auto
  show ?thesis
  proof (cases "\<exists>m b. (''lxd.tar.xz'', File m b) \<in> set files")
    case False
    then have "''lxd.tar.xz'' \<notin> fst ` set (Items v1)" using keys by auto
    then have "map_of (Items v1) ItemTypeMetadata = None"
      by (simp add: map_of_eq_None_iff ItemTypeMetadata_def)
    then have "GetVersion E fs rootDir versionRelPath calcHashes = Inl ErrVersionIncomplete"
      using rd sc by (simp add: GetVersion_def Let_def)
    moreover have "\<not> complete_dir files" using False by (simp add: complete_dir_iff)
    ultimately show ?thesis by simp
  next
    case True
    then obtain mm mb where lf: "(''lxd.tar.xz'', File mm mb) \<in> set files" by blast
    have ml: "map_of files ''lxd.tar.xz'' = Some (File mm mb)" using wf_entry(2)[OF wf lf] .
    have "''lxd.tar.xz'' \<in> fst ` set (Items v1)" using keys lf lxd_allowed by auto
    from key_item[OF this] obtain metaItem where
      mi: "map_of (Items v1) ''lxd.tar.xz'' = Some metaItem"
      and mim: "(''lxd.tar.xz'', metaItem) \<in> set (Items v1)" by blast
    have nm: "Name metaItem = ''lxd.tar.xz''"
      using items_ok_mem[OF ok mim] by (simp add: item_ok_def)
    from combine_ok[OF st wf ml, of "Items v1" E calcHashes metaItem False] items_ok_mem[OF ok]
    obtain meta' c' where
      cb: "combine E fs ?vp (Join ?vp ''lxd.tar.xz'') calcHashes (Items v1) (metaItem, False)
             = Inr (meta', c')"
      and cc: "c' \<longleftrightarrow> (\<exists>k i. (k, i) \<in> set (Items v1)
                \<and> (Ftype i = ItemTypeSquashfs \<or> Ftype i = ItemTypeDiskKVM))"
      and rr: "\<forall>rm rb. map_of files ''root.tar.xz'' = Some (File rm rb) \<longrightarrow>
            CombinedSHA256RootXz meta' =
              (if ''root.tar.xz'' \<in> fst ` set (Items v1)
               then (if calcHashes then sha256 E (mb @ rb) else [])
               else CombinedSHA256RootXz metaItem)"
      by auto
    have ce: "c' \<longleftrightarrow> complete_dir files"
    proof
      assume c'
      with cc obtain k i where ki: "(k, i) \<in> set (Items v1)"
        "Ftype i = ItemTypeSquashfs \<or> Ftype i = ItemTypeDiskKVM" by blast
      from items_ok_mem[OF ok ki(1)] ki(2) have "Ext k = ''.squashfs'' \<or> Ext k = ''.qcow2''"
        by (auto simp: item_ok_def)
      then have hs: "HasSuffix k ''.squashfs'' \<or> HasSuffix k ''.qcow2''" using rootfs_ext by simp
      have "k \<in> fst ` set (Items v1)" using ki(1) by force
      with keys obtain m b where "(k, File m b) \<in> set files" by auto
      with hs lf show "complete_dir files" unfolding complete_dir_iff by blast
    next
      assume "complete_dir files"
      then obtain k m b where kf: "(k, File m b) \<in> set files"
        "HasSuffix k ''.squashfs'' \<or> HasSuffix k ''.qcow2''" unfolding complete_dir_iff by blast
      then have "k \<in> fst ` set (Items v1)" using keys rootfs_allowed by auto
      from key_item[OF this] obtain i where i: "(k, i) \<in> set (Items v1)" by blast
      from kf(2) have "Ext k = ''.squashfs'' \<or> Ext k = ''.qcow2''" using rootfs_ext by simp
      with items_ok_mem[OF ok i] have "Ftype i = ItemTypeSquashfs \<or> Ftype i = ItemTypeDiskKVM"
        by (auto simp: item_ok_def)
      with i cc show c' by blast
    qed
    let ?v = "v1\<lparr>Items := AList.update ItemTypeMetadata meta' (Items v1)\<rparr>"
    have gv: "GetVersion E fs rootDir versionRelPath calcHashes =
                (if \<not> c' then Inl ErrVersionIncomplete else Inr ?v)"
      using rd sc mi cb nm by (simp add: GetVersion_def Let_def ItemTypeMetadata_def)
    have root: "\<forall>mm' mb' rm rb. map_of files ''lxd.tar.xz'' = Some (File mm' mb') \<longrightarrow>
                     map_of files ''root.tar.xz'' = Some (File rm rb) \<longrightarrow>
                   (\<exists>meta. map_of (Items ?v) ''lxd.tar.xz'' = Some meta
                      \<and> CombinedSHA256RootXz meta = (if calcHashes then sha256 E (mb' @ rb) else []))"
    proof (intro allI impI)
      fix mm' mb' rm rb
      assume a: "map_of files ''lxd.tar.xz'' = Some (File mm' mb')"
        and b: "map_of files ''root.tar.xz'' = Some (File rm rb)"
      from a ml have e: "mb' = mb" by simp
      from b have "(''root.tar.xz'', File rm rb) \<in> set files" by (rule map_of_SomeD)
      then have "''root.tar.xz'' \<in> fst ` set (Items v1)" using keys root_allowed by auto
      with rr b have "CombinedSHA256RootXz meta' = (if calcHashes then sha256 E (mb @ rb) else [])"
        by simp
      then show "\<exists>meta. map_of (Items ?v) ''lxd.tar.xz'' = Some meta
                      \<and> CombinedSHA256RootXz meta = (if calcHashes then sha256 E (mb' @ rb) else [])"
        using e by (simp add: update_conv' ItemTypeMetadata_def)
    qed
    show ?thesis
    proof (cases c')
      case True
      then have "GetVersion E fs rootDir versionRelPath calcHashes = Inr ?v" using gv by simp
      with root True ce show ?thesis by blast
    next
      case False
      then show ?thesis using gv ce by simp
    qed
  qed
qed

lemma image_config_not_item: "\<not> has_allowed_ext FileImageConfig \<and> FileImageConfig \<noteq> FileChecksumSHA256"
  by (simp add: has_allowed_ext_def item_consts HasSuffix_def)

lemma scan_files_invalid:
  assumes st: "Stat fs (Join rootDir vrel) = Some (Dir all)"
    and wf: "wf_listing all"
    and bad: "map_of all FileImageConfig = Some (File cm cb)" "readYAML E cb = None"
  shows "set files \<subseteq> set all \<Longrightarrow> FileImageConfig \<in> fst ` set files \<Longrightarrow>
     scan_files E fs rootDir vrel calc files v = Inl ErrVersionInvalidImageConfig"
proof (induction files arbitrary: v)
  case Nil
  then show ?case by simp
next
  case (Cons f files)
  obtain name nd where f: "f = (name, nd)" by (cases f)
  from Cons.prems f have mem: "(name, nd) \<in> set all" and sub: "set files \<subseteq> set all" by auto
  note e = wf_entry[OF wf mem]
  show ?case
  proof (cases "name = FileImageConfig")
    case True
    with e(2) bad(1) have nd: "nd = File cm cb" by simp
    have sp: "Stat fs (Join (Join rootDir vrel) name) = Some (File cm cb)"
      using Stat_entry(2)[OF st e(1)] e(2) nd by simp
    show ?thesis
      using f nd True image_config_not_item sp bad(2) by (simp add: ReadYAMLFile_def)
  next
    case False
    with Cons.prems(2) f have rest: "FileImageConfig \<in> fst ` set files" by auto
    note IH = Cons.IH[OF sub rest]
    show ?thesis
    proof (cases nd)
      case (Dir es)
      then show ?thesis using f IH by simp
    next
      case (File m b)
      have sp: "Stat fs (Join (Join rootDir vrel) name) = Some (File m b)"
        using Stat_entry(2)[OF st e(1)] e(2) File by simp
      show ?thesis
      proof (cases "has_allowed_ext name")
        case True
        from GetItem_file[OF st _ e(1) True, of m b E calc] e(2) File obtain i where
          i: "GetItem E fs rootDir (Join vrel name) calc = Inr i" by auto
        show ?thesis using f File True i IH by simp
      next
        case na: False
        show ?thesis
        proof (cases "name = FileChecksumSHA256")
          case True
          then show ?thesis using f File na sp IH by (simp add: ReadChecksumFile_def)
        next
          case nc: False
          show ?thesis using f File na nc False IH by simp
        qed
      qed
    qed
  qed
qed

lemma GetVersion_invalid:
  assumes rd: "ReadDir fs (Join rootDir versionRelPath) = Inr files"
    and wf: "wf_listing files" and cfg: "\<not> config_parses E files"
  shows "GetVersion E fs rootDir versionRelPath calcHashes = Inl ErrVersionInvalidImageConfig"
proof -
  have st: "Stat fs (Join rootDir versionRelPath) = Some (Dir files)"
    using rd by (auto simp: ReadDir_def split: option.splits node.splits)
  from cfg obtain m b where bad: "map_of files FileImageConfig = Some (File m b)" "readYAML E b = None"
    by (auto simp: config_parses_def split: option.splits node.splits)
  from bad(1) have "(FileImageConfig, File m b) \<in> set files" by (rule map_of_SomeD)
  then have "FileImageConfig \<in> fst ` set files" by force
  from scan_files_invalid[OF st wf bad subset_refl this]
  show ?thesis using rd by (simp add: GetVersion_def Let_def)
qed


text \<open>
  C5, as the code has it. For a version directory that can be read, with a
  well-formed listing: when its \<open>image.yaml\<close> parses, or there is none,
  \<open>GetVersion\<close> returns a version exactly when the directory is complete, and
  fails with \<open>ErrVersionIncomplete\<close> otherwise. A file \<open>root.tar.xz\<close> does not
  make a directory complete; in a version that is returned, the field
  \<open>CombinedSHA256RootXz\<close> of the metadata item is the digest of the metadata file
  followed by \<open>root.tar.xz\<close> when hashes are calculated, and empty when not.
  When \<open>image.yaml\<close> is a file that does not parse, \<open>GetVersion\<close> fails with
  \<open>ErrVersionInvalidImageConfig\<close>, whether the directory is complete or not.
\<close>

theorem GetVersion_complete_iff:
  assumes rd: "ReadDir fs (Join rootDir versionRelPath) = Inr files"
    and wf: "wf_listing files"
  shows "(config_parses E files \<and> complete_dir files \<longrightarrow>
           (\<exists>v. GetVersion E fs rootDir versionRelPath calcHashes = Inr v
              \<and> (\<forall>mm mb rm rb. map_of files ''lxd.tar.xz'' = Some (File mm mb) \<longrightarrow>
                     map_of files ''root.tar.xz'' = Some (File rm rb) \<longrightarrow>
                   (\<exists>meta. map_of (Items v) ''lxd.tar.xz'' = Some meta
                      \<and> CombinedSHA256RootXz meta = (if calcHashes then sha256 E (mb @ rb) else [])))))
       \<and> (config_parses E files \<and> \<not> complete_dir files \<longrightarrow>
             GetVersion E fs rootDir versionRelPath calcHashes = Inl ErrVersionIncomplete)
       \<and> (\<not> config_parses E files \<longrightarrow>
             GetVersion E fs rootDir versionRelPath calcHashes = Inl ErrVersionInvalidImageConfig)"
proof (cases "config_parses E files")
  case True
  from GetVersion_parsed[OF rd wf True, of calcHashes] True show ?thesis by blast
next
  case False
  from GetVersion_invalid[OF rd wf False, of calcHashes] False show ?thesis by blast
qed

theorem GetVersion_complete_iff_witness:
  "complete_dir [(''lxd.tar.xz'', File 420 ''metadata''), (''root.tar.xz'', File 420 ''root''),
                 (''rootfs.squashfs'', File 420 ''rootfs'')]
   \<and> (\<exists>v. GetVersion env0
              (product_fs [(''2024_01_01'',
                 Dir [(''lxd.tar.xz'', File 420 ''metadata''), (''root.tar.xz'', File 420 ''root''),
                      (''rootfs.squashfs'', File 420 ''rootfs'')])])
              ''/srv'' ''images/ubuntu/noble/amd64/cloud/2024_01_01'' True = Inr v
          \<and> (\<exists>meta. map_of (Items v) ''lxd.tar.xz'' = Some meta
                \<and> CombinedSHA256RootXz meta = ''sha256:metadataroot''))
   \<and> \<not> complete_dir [(''lxd.tar.xz'', File 420 ''metadata''), (''root.tar.xz'', File 420 ''root'')]
   \<and> GetVersion env0
        (product_fs [(''2024_01_01'',
           Dir [(''lxd.tar.xz'', File 420 ''metadata''), (''root.tar.xz'', File 420 ''root'')])])
        ''/srv'' ''images/ubuntu/noble/amd64/cloud/2024_01_01'' True = Inl ErrVersionIncomplete
   \<and> \<not> config_parses env0 [(''image.yaml'', File 420 ''simplestreams: [''),
                 (''lxd.tar.xz'', File 420 ''metadata''), (''disk.qcow2'', File 420 ''disk'')]
   \<and> GetVersion env0
        (product_fs [(''2024_01_01'',
           Dir [(''image.yaml'', File 420 ''simplestreams: [''),
                (''lxd.tar.xz'', File 420 ''metadata''), (''disk.qcow2'', File 420 ''disk'')])])
        ''/srv'' ''images/ubuntu/noble/amd64/cloud/2024_01_01'' True = Inl ErrVersionInvalidImageConfig"
proof -
  let ?f1 = "[(''lxd.tar.xz'', File 420 ''metadata''), (''root.tar.xz'', File 420 ''root''),
              (''rootfs.squashfs'', File 420 ''rootfs'')]"
  let ?f2 = "[(''lxd.tar.xz'', File 420 ''metadata''), (''root.tar.xz'', File 420 ''root'')]"
  let ?f3 = "[(''image.yaml'', File 420 ''simplestreams: [''),
              (''lxd.tar.xz'', File 420 ''metadata''), (''disk.qcow2'', File 420 ''disk'')]"
  let ?p = "''images/ubuntu/noble/amd64/cloud/2024_01_01''"
  have rd1: "ReadDir (product_fs [(''2024_01_01'', Dir ?f1)]) (Join ''/srv'' ?p) = Inr ?f1"
    by code_simp
  have rd2: "ReadDir (product_fs [(''2024_01_01'', Dir ?f2)]) (Join ''/srv'' ?p) = Inr ?f2"
    by code_simp
  have rd3: "ReadDir (product_fs [(''2024_01_01'', Dir ?f3)]) (Join ''/srv'' ?p) = Inr ?f3"
    by code_simp
  have wf1: "wf_listing ?f1" and wf2: "wf_listing ?f2" and wf3: "wf_listing ?f3" by code_simp+
  have cfg1: "config_parses env0 ?f1" and cfg2: "config_parses env0 ?f2"
    and cfg3: "\<not> config_parses env0 ?f3" by code_simp+
  have c1: "complete_dir ?f1" and c2: "\<not> complete_dir ?f2" by code_simp+
  have m: "map_of ?f1 ''lxd.tar.xz'' = Some (File 420 ''metadata'')"
    "map_of ?f1 ''root.tar.xz'' = Some (File 420 ''root'')" by simp_all
  have h: "sha256 env0 (''metadata'' @ ''root'') = ''sha256:metadataroot''" by code_simp
  from GetVersion_complete_iff[OF rd1 wf1, of env0 True] cfg1 c1 m h
  have 1: "\<exists>v. GetVersion env0 (product_fs [(''2024_01_01'', Dir ?f1)]) ''/srv'' ?p True = Inr v
          \<and> (\<exists>meta. map_of (Items v) ''lxd.tar.xz'' = Some meta
                \<and> CombinedSHA256RootXz meta = ''sha256:metadataroot'')"
    by (metis (full_types))
  from GetVersion_complete_iff[OF rd2 wf2, of env0 True] cfg2 c2
  have 2: "GetVersion env0 (product_fs [(''2024_01_01'', Dir ?f2)]) ''/srv'' ?p True
             = Inl ErrVersionIncomplete" by blast
  from GetVersion_complete_iff[OF rd3 wf3, of env0 True] cfg3
  have 3: "GetVersion env0 (product_fs [(''2024_01_01'', Dir ?f3)]) ''/srv'' ?p True
             = Inl ErrVersionInvalidImageConfig" by blast
  from c1 1 c2 2 cfg3 3 show ?thesis by blast
qed

text \<open>
  C5, as the claim has it, fails for a directory whose \<open>image.yaml\<close> does not
  parse: a complete directory gives no version, and the error of a directory that
  is not complete is not \<open>ErrVersionIncomplete\<close>; both fail with
  \<open>ErrVersionInvalidImageConfig\<close>.
\<close>

theorem GetVersion_invalid_image_config:
  "complete_dir [(''image.yaml'', File 420 ''simplestreams: [''),
                 (''lxd.tar.xz'', File 420 ''metadata''), (''rootfs.squashfs'', File 420 ''rootfs'')]
   \<and> GetVersion env0
        (product_fs [(''2024_01_01'',
           Dir [(''image.yaml'', File 420 ''simplestreams: [''),
                (''lxd.tar.xz'', File 420 ''metadata''), (''rootfs.squashfs'', File 420 ''rootfs'')])])
        ''/srv'' ''images/ubuntu/noble/amd64/cloud/2024_01_01'' False
       = Inl ErrVersionInvalidImageConfig
   \<and> \<not> complete_dir [(''image.yaml'', File 420 ''simplestreams: [''),
                 (''lxd.tar.xz'', File 420 ''metadata'')]
   \<and> GetVersion env0
        (product_fs [(''2024_01_01'',
           Dir [(''image.yaml'', File 420 ''simplestreams: [''),
                (''lxd.tar.xz'', File 420 ''metadata'')])])
        ''/srv'' ''images/ubuntu/noble/amd64/cloud/2024_01_01'' False
       = Inl ErrVersionInvalidImageConfig"
  by code_simp

section \<open>The build pipeline keeps the published versions\<close>

lemma has_version_update_other:
  "map_of products pid = None \<Longrightarrow> has_version products i n \<Longrightarrow>
   has_version (AList.update pid q products) i n"
  by (auto simp: has_version_def update_conv' split: option.splits)

lemma has_version_update_version:
  "map_of products pid = Some p \<Longrightarrow> has_version products i n \<Longrightarrow>
   has_version (AList.update pid (p\<lparr>Versions := AList.update vn v (Versions p)\<rparr>) products) i n"
  by (auto simp: has_version_def update_conv' dom_update split: option.splits)

lemma add_version_keeps:
  assumes "add_version E fs rootDir pid productPath versionName products = (fs', Inr products')"
    and "has_version products i n"
  shows "has_version products' i n"
  using assms has_version_update_version
  unfolding add_version_def Let_def
  by (auto split: prod.splits option.splits sum.splits bool.splits)

lemma add_versions_keeps:
  "add_versions E fs rootDir pid productPath names products = (fs', Inr products') \<Longrightarrow>
   has_version products i n \<Longrightarrow> has_version products' i n"
proof (induction names arbitrary: fs products)
  case Nil
  then show ?case by simp
next
  case (Cons a names)
  obtain fs1 r where a: "add_version E fs rootDir pid productPath a products = (fs1, r)"
    by (cases "add_version E fs rootDir pid productPath a products")
  show ?case
  proof (cases r)
    case (Inl e)
    with Cons.prems a show ?thesis by simp
  next
    case (Inr products1)
    with Cons.prems a have "add_versions E fs1 rootDir pid productPath names products1 = (fs', Inr products')"
      by simp
    moreover have "has_version products1 i n"
      using add_version_keeps a Inr Cons.prems(2) by blast
    ultimately show ?thesis using Cons.IH by blast
  qed
qed

lemma add_products_keeps:
  "add_products E fs rootDir streamName found newProducts products = (fs', Inr products') \<Longrightarrow>
   has_version products i n \<Longrightarrow> has_version products' i n"
proof (induction newProducts arbitrary: fs products)
  case Nil
  then show ?case by simp
next
  case (Cons x newProducts)
  obtain pid p where x: "x = (pid, p)" by (cases x)
  show ?case
  proof (cases "length (Versions p) = 0")
    case True
    with Cons x show ?thesis by simp
  next
    case False
    define products1 where "products1 =
       (case map_of products pid of
          Some _ \<Rightarrow> products
        | None \<Rightarrow> AList.update pid
            ((case map_of found pid of None \<Rightarrow> zero_Product | Some q \<Rightarrow> q)\<lparr>Versions := []\<rparr>)
            products)"
    have h1: "has_version products1 i n"
      using Cons.prems(2) has_version_update_other
      by (auto simp: products1_def split: option.splits)
    obtain fs1 r where a: "add_versions E fs rootDir pid (Join streamName (RelPath p))
        (map fst (Versions p)) products1 = (fs1, r)"
      by (cases "add_versions E fs rootDir pid (Join streamName (RelPath p))
        (map fst (Versions p)) products1")
    show ?thesis
    proof (cases r)
      case (Inl e)
      with Cons.prems(1) x False a show ?thesis
        by (simp add: Let_def products1_def)
    next
      case (Inr products2)
      with Cons.prems(1) x False a
      have "add_products E fs1 rootDir streamName found newProducts products2 = (fs', Inr products')"
        by (simp add: Let_def products1_def)
      moreover have "has_version products2 i n"
        using add_versions_keeps a Inr h1 by blast
      ultimately show ?thesis using Cons.IH by blast
    qed
  qed
qed

lemma buildProductCatalog_returned_keeps:
  assumes "ReadCatalog E fs (catalog_path rootDir streamVersion streamName) = Inr (Some old)"
    and "buildProductCatalog E fs rootDir streamVersion streamName = (fs', Inr catalog)"
    and "has_version (Products old) pid name"
  shows "has_version (Products catalog) pid name"
proof -
  from assms(1,2) obtain products newProducts products' where
    "add_products E fs rootDir streamName products newProducts (Products old) = (fs', Inr products')"
    "catalog = old\<lparr>Products := products'\<rparr>"
    unfolding buildProductCatalog_def Let_def
    by (auto split: sum.splits prod.splits)
  then show ?thesis using add_products_keeps assms(3) by fastforce
qed

text \<open>
  C7. \<open>buildProductCatalog\<close> is meant not to delete from the catalog, and a catalog
  that it returns has every pair of a product id and a version name of the catalog it
  read (lemma \<open>buildProductCatalog_returned_keeps\<close>). But it returns no catalog when
  a version of the published catalog is gone from disk while its product is still
  found there: the catalog lists the versions \<open>2023_12_31\<close> and \<open>2024_01_01\<close> of
  a product, the directory of the product holds \<open>2024_01_01\<close> only, and the second
  loop of \<open>diffProducts\<close> panics on the version that is gone.
\<close>

theorem buildProductCatalog_removed_version_panics:
  "ReadCatalog env2 pruned_fs (catalog_path ''/srv'' ''v1'' ''images'') = Inr (Some listed_catalog)
   \<and> has_version (Products listed_catalog) ''ubuntu:noble:amd64:cloud'' ''2023_12_31''
   \<and> map_sum (\<lambda>e. e) (map (\<lambda>(i, p). (i, map fst (Versions p))))
        (GetProducts env2 pruned_fs ''/srv'' ''images'')
       = Inr [(''ubuntu:noble:amd64:cloud'', [''2024_01_01''])]
   \<and> buildProductCatalog env2 pruned_fs ''/srv'' ''v1'' ''images'' = (pruned_fs, Inl Panic)"
  by code_simp


section \<open>Pruning old versions\<close>




text \<open>The model gives what the cases of \<open>TestPruneOldVersions\<close> expect: the error
  for a number below 1, nothing for an empty product, and the listed complete versions
  for the other four products. The fourth product is taken with a catalog of its
  complete versions and with a catalog of all its versions.\<close>

lemma pruneProductVersions_tests:
  "pruneProductVersions 0 referenced disk = Inl ErrInvalidArg"
  "pruneProductVersions 1 (Some []) [] = Inr []"
  "left_complete (pruneProductVersions 3 (Some [''01'', ''02'', ''03''])
      (map (\<lambda>n. \<lparr>vd_name = n, vd_complete = True\<rparr>) [''01'', ''02'', ''03'']))
     = Inr [''01'', ''02'', ''03'']"
  "left_complete (pruneProductVersions 3
      (Some [''2024_01_01'', ''2024_01_05'', ''2024_05_01'', ''2025_01_01''])
      (map (\<lambda>n. \<lparr>vd_name = n, vd_complete = True\<rparr>)
         [''2024_01_01'', ''2024_01_05'', ''2024_05_01'', ''2025_01_01'']))
     = Inr [''2024_01_05'', ''2024_05_01'', ''2025_01_01'']"
  "left_complete (pruneProductVersions 2 (Some [''2024_01_02'', ''2024_01_03'', ''2024_01_05''])
      disk_01_06) = Inr [''2024_01_03'', ''2024_01_05'']"
  "left_complete (pruneProductVersions 2 (Some (map vd_name disk_01_06)) disk_01_06)
     = Inr [''2024_01_03'', ''2024_01_05'']"
  "left_complete (pruneProductVersions 2 (Some [''2023'', ''2024'', ''2025'', ''2026''])
      disk_2023_2028) = Inr [''2025'', ''2026'', ''2027'', ''2028'']"
  by (simp add: pruneProductVersions_def, code_simp+)





section \<open>Publishing: the catalogs before the index\<close>

text \<open>
  C6, as the claim has it, fails for a stream named \<open>index\<close>: its catalog and the
  index share the temporary and the final path, so the first rename puts the new
  index, which lists \<open>streams/v1/images.json\<close>, at \<open>index.json\<close> while the catalog
  of \<open>images\<close> is not yet in place.
\<close>

theorem buildIndex_stream_named_index:
  "snd (stage env0 streams_fs ''/srv'' ''v1'' [''index'', ''images'']) = None
   \<and> map (ie_Path \<circ> snd) (ix_Index (bs_index index_build))
       = [''streams/v1/index.json'', ''streams/v1/images.json'']
   \<and> Stat (hd index_states) (indexPath ''/srv'' ''v1'')
       = Some (File (createMode env0) (writeIndex env0 (bs_index index_build)))
   \<and> Stat (hd index_states) (catalogPath ''/srv'' ''v1'' ''images'') = None"
  by code_simp


end
